theory Spec2Isabelle
  imports Main "HOL-Library.Char_ord" "HOL-Library.List_Lexorder"
begin

section \<open>Values, items and the backing store\<close>

text \<open>
  The module \<^verbatim>\<open>autopush/db.py\<close> is a thin layer over boto's DynamoDB binding. The
  Python values it passes around (\<^verbatim>\<open>None\<close>, integers, strings, sets of strings) are
  the constructors of \<open>val\<close>; boto's encoding of a value into DynamoDB's wire format
  (\<^verbatim>\<open>NULL\<close>, \<^verbatim>\<open>N\<close>, \<^verbatim>\<open>S\<close>, \<^verbatim>\<open>SS\<close>) is one-to-one on them, so a stored attribute is
  kept as the Python value it decodes to. A dict, and a stored item, is a map from
  attribute names to values.
\<close>

datatype val = PNone | PInt int | PStr string | PSet "string set"

type_synonym item = "string \<rightharpoonup> val"

text \<open>Python's truth value of an object, as \<^verbatim>\<open>if x:\<close> and \<^verbatim>\<open>x or y\<close> test it.\<close>

fun truthy :: "val \<Rightarrow> bool" where
  "truthy PNone = False"
| "truthy (PInt n) = (n \<noteq> 0)"
| "truthy (PStr s) = (s \<noteq> [])"
| "truthy (PSet A) = (A \<noteq> {})"

text \<open>The exceptions that cross this module.\<close>

datatype error =
    ProvisionedThroughputExceededException
  | ConditionalCheckFailedException
  | ItemNotFound
  | ValidationException
  | KeyError
  | OverflowError

text \<open>
  One \<open>store\<close> is what a \<^verbatim>\<open>Storage\<close>, \<^verbatim>\<open>Message\<close> or \<^verbatim>\<open>Router\<close> object holds: its table
  (\<open>key_fields\<close> is the table's key schema, \<open>rows\<close> the items by key) and its metrics
  sink (\<open>metrics\<close> lists the counters incremented so far, oldest first). The store may
  refuse any request for lack of provisioned throughput; \<open>faults\<close> is the schedule of
  these refusals, one entry per request sent, \<open>True\<close> for a refused one (no entry left:
  the request is served).
\<close>

record store =
  key_fields :: "string list"
  rows :: "val list \<rightharpoonup> item"
  faults :: "bool list"
  metrics :: "string list"

definition increment :: "string \<Rightarrow> store \<Rightarrow> store" where
  "increment name self = self\<lparr>metrics := metrics self @ [name]\<rparr>"

definition request :: "store \<Rightarrow> bool \<times> store" where
  "request s = (case faults s of [] \<Rightarrow> (False, s) | f # fs \<Rightarrow> (f, s\<lparr>faults := fs\<rparr>))"

text \<open>The key of an item under a key schema: the values of the key fields, each a
  string or a number (there is no key when a key field is missing or of another
  type).\<close>

fun is_key_val :: "val \<Rightarrow> bool" where
  "is_key_val (PStr s) = True"
| "is_key_val (PInt n) = True"
| "is_key_val _ = False"

fun key_of :: "string list \<Rightarrow> item \<Rightarrow> val list option" where
  "key_of [] it = Some []"
| "key_of (k # ks) it =
     (case it k of
        None \<Rightarrow> None
      | Some v \<Rightarrow>
          if is_key_val v
          then (case key_of ks it of None \<Rightarrow> None | Some vs \<Rightarrow> Some (v # vs))
          else None)"

text \<open>The item stored under a key, the empty item when there is none: what a condition
  expression is evaluated on.\<close>

definition current :: "store \<Rightarrow> val list \<Rightarrow> item" where
  "current s k = (case rows s k of None \<Rightarrow> Map.empty | Some it \<Rightarrow> it)"

subsection \<open>Condition and update expressions\<close>

text \<open>
  The condition expressions of the module, with the placeholders (\<^verbatim>\<open>:ver\<close>,
  \<^verbatim>\<open>:node\<close>, ...) replaced by the values \<^verbatim>\<open>expression_attribute_values\<close> gives them.
  A comparison on an attribute the item lacks is false; \<open><\<close> compares two numbers or
  two strings and is false on any other pair.
\<close>

datatype cond =
    attribute_not_exists string
  | attribute_exists string
  | Eq string val
  | Lt string val
  | Or cond cond
  | And cond cond

fun val_less :: "val \<Rightarrow> val \<Rightarrow> bool" where
  "val_less (PInt a) (PInt b) = (a < b)"
| "val_less (PStr a) (PStr b) = (a < b)"
| "val_less _ _ = False"

fun holds :: "cond \<Rightarrow> item \<Rightarrow> bool" where
  "holds (attribute_not_exists a) it = (it a = None)"
| "holds (attribute_exists a) it = (it a \<noteq> None)"
| "holds (Eq a v) it = (it a = Some v)"
| "holds (Lt a v) it = (case it a of None \<Rightarrow> False | Some w \<Rightarrow> val_less w v)"
| "holds (Or c d) it = (holds c it \<or> holds d it)"
| "holds (And c d) it = (holds c it \<and> holds d it)"

text \<open>
  The clauses of an update expression: \<^verbatim>\<open>SET a=:a, ...\<close> (the attributes with their new
  values), \<^verbatim>\<open>REMOVE a, ...\<close>, and \<^verbatim>\<open>ADD\<close> and \<^verbatim>\<open>DELETE\<close> of elements on a set
  attribute (a set attribute is never stored empty: removing its last element removes
  the attribute). \<^verbatim>\<open>ADD\<close> and \<^verbatim>\<open>DELETE\<close> on an attribute that is not a set are rejected.
\<close>

datatype action =
    SET item
  | REMOVE "string list"
  | ADD string "string set"
  | DELETE string "string set"

fun apply_action :: "action \<Rightarrow> item \<Rightarrow> item option" where
  "apply_action (SET m) it = Some (it ++ m)"
| "apply_action (REMOVE as) it = Some (\<lambda>a. if a \<in> set as then None else it a)"
| "apply_action (ADD a A) it =
     (case it a of
        None \<Rightarrow> Some (it(a \<mapsto> PSet A))
      | Some (PSet B) \<Rightarrow> Some (it(a \<mapsto> PSet (B \<union> A)))
      | Some _ \<Rightarrow> None)"
| "apply_action (DELETE a A) it =
     (case it a of
        None \<Rightarrow> Some it
      | Some (PSet B) \<Rightarrow> Some (if B - A = {} then it(a := None) else it(a \<mapsto> PSet (B - A)))
      | Some _ \<Rightarrow> None)"

fun apply_actions :: "action list \<Rightarrow> item \<Rightarrow> item option" where
  "apply_actions [] it = Some it"
| "apply_actions (u # us) it =
     (case apply_action u it of None \<Rightarrow> None | Some it' \<Rightarrow> apply_actions us it')"

datatype return_values = NO_VALUES | ALL_OLD | UPDATED_OLD

subsection \<open>The connection: DynamoDB's single-item requests\<close>

text \<open>
  \<^verbatim>\<open>conn.put_item\<close>, \<^verbatim>\<open>conn.update_item\<close>, \<^verbatim>\<open>conn.delete_item\<close> and
  \<^verbatim>\<open>conn.get_item\<close> of boto's \<^verbatim>\<open>DynamoDBConnection\<close>. A request without the
  table's key attributes is rejected; a refused request (see \<open>faults\<close>) changes nothing;
  a condition that does not hold on the stored item raises
  \<^verbatim>\<open>ConditionalCheckFailedException\<close> and changes nothing. \<^verbatim>\<open>put_item\<close> replaces the
  whole item; \<^verbatim>\<open>update_item\<close> edits the stored item, or a new one made of the key when
  there is none, and answers the old attributes asked for.
\<close>

definition conn_put_item :: "item \<Rightarrow> cond list \<Rightarrow> store \<Rightarrow> (error + unit) \<times> store" where
  "conn_put_item it conds s =
     (case key_of (key_fields s) it of
        None \<Rightarrow> (Inl ValidationException, s)
      | Some k \<Rightarrow>
          (case request s of
             (True, s1) \<Rightarrow> (Inl ProvisionedThroughputExceededException, s1)
           | (False, s1) \<Rightarrow>
               if list_all (\<lambda>c. holds c (current s1 k)) conds
               then (Inr (), s1\<lparr>rows := (rows s1)(k \<mapsto> it)\<rparr>)
               else (Inl ConditionalCheckFailedException, s1)))"

text \<open>The attributes an update expression names: \<^verbatim>\<open>UPDATED_OLD\<close> answers the old
  values of these, \<^verbatim>\<open>ALL_OLD\<close> the whole old item.\<close>

fun names :: "action \<Rightarrow> string \<Rightarrow> bool" where
  "names (SET m) a = (m a \<noteq> None)"
| "names (REMOVE as) a = (a \<in> set as)"
| "names (ADD b A) a = (a = b)"
| "names (DELETE b A) a = (a = b)"

definition old_values :: "return_values \<Rightarrow> action list \<Rightarrow> item \<Rightarrow> item" where
  "old_values rv expr old =
     (case rv of
        NO_VALUES \<Rightarrow> Map.empty
      | ALL_OLD \<Rightarrow> old
      | UPDATED_OLD \<Rightarrow> (\<lambda>a. if list_ex (\<lambda>u. names u a) expr then old a else None))"

definition conn_update_item ::
  "item \<Rightarrow> action list \<Rightarrow> cond list \<Rightarrow> return_values \<Rightarrow> store \<Rightarrow> (error + item) \<times> store" where
  "conn_update_item db_key expr conds rv s =
     (case key_of (key_fields s) db_key of
        None \<Rightarrow> (Inl ValidationException, s)
      | Some k \<Rightarrow>
          (case request s of
             (True, s1) \<Rightarrow> (Inl ProvisionedThroughputExceededException, s1)
           | (False, s1) \<Rightarrow>
               if list_all (\<lambda>c. holds c (current s1 k)) conds
               then
                 (case apply_actions expr
                         (case rows s1 k of None \<Rightarrow> db_key | Some it \<Rightarrow> it) of
                    None \<Rightarrow> (Inl ValidationException, s1)
                  | Some new \<Rightarrow>
                      (Inr (old_values rv expr (current s1 k)),
                       s1\<lparr>rows := (rows s1)(k \<mapsto> new)\<rparr>))
               else (Inl ConditionalCheckFailedException, s1)))"

definition conn_delete_item :: "item \<Rightarrow> cond list \<Rightarrow> store \<Rightarrow> (error + unit) \<times> store" where
  "conn_delete_item raw_key conds s =
     (case key_of (key_fields s) raw_key of
        None \<Rightarrow> (Inl ValidationException, s)
      | Some k \<Rightarrow>
          (case request s of
             (True, s1) \<Rightarrow> (Inl ProvisionedThroughputExceededException, s1)
           | (False, s1) \<Rightarrow>
               if list_all (\<lambda>c. holds c (current s1 k)) conds
               then (Inr (), s1\<lparr>rows := (rows s1)(k := None)\<rparr>)
               else (Inl ConditionalCheckFailedException, s1)))"

subsection \<open>boto's Table\<close>

text \<open>
  \<^verbatim>\<open>Table.delete_item(expected=..., **key)\<close> sends the conditional delete and answers
  a boolean: it catches \<^verbatim>\<open>ConditionalCheckFailedException\<close> itself and returns
  \<^verbatim>\<open>False\<close> for it, \<^verbatim>\<open>True\<close> when the request went through (also when no item was
  stored under the key). Any other exception passes.
\<close>

definition table_delete_item :: "item \<Rightarrow> cond list \<Rightarrow> store \<Rightarrow> (error + bool) \<times> store" where
  "table_delete_item raw_key expected s =
     (case conn_delete_item raw_key expected s of
        (Inl ConditionalCheckFailedException, s') \<Rightarrow> (Inr False, s')
      | (Inl e, s') \<Rightarrow> (Inl e, s')
      | (Inr _, s') \<Rightarrow> (Inr True, s'))"

text \<open>\<^verbatim>\<open>Table.get_item(consistent=True, **key)\<close> raises \<^verbatim>\<open>ItemNotFound\<close> when nothing is
  stored under the key.\<close>

definition table_get_item :: "item \<Rightarrow> store \<Rightarrow> (error + item) \<times> store" where
  "table_get_item raw_key s =
     (case key_of (key_fields s) raw_key of
        None \<Rightarrow> (Inl ValidationException, s)
      | Some k \<Rightarrow>
          (case request s of
             (True, s1) \<Rightarrow> (Inl ProvisionedThroughputExceededException, s1)
           | (False, s1) \<Rightarrow>
               (case rows s1 k of
                  None \<Rightarrow> (Inl ItemNotFound, s1)
                | Some it \<Rightarrow> (Inr it, s1))))"

text \<open>\<^verbatim>\<open>item[key]\<close> on a boto \<^verbatim>\<open>Item\<close> is \<^verbatim>\<open>None\<close> for a missing key (no \<^verbatim>\<open>KeyError\<close>),
  and \<^verbatim>\<open>del item[key]\<close> does nothing for one.\<close>

definition item_get :: "item \<Rightarrow> string \<Rightarrow> val" where
  "item_get it k = (case it k of None \<Rightarrow> PNone | Some v \<Rightarrow> v)"

definition item_del :: "item \<Rightarrow> string \<Rightarrow> item" where
  "item_del it k = it(k := None)"

text \<open>
  \<^verbatim>\<open>Table.put_item(data=...)\<close> without \<^verbatim>\<open>overwrite\<close> builds a new boto \<^verbatim>\<open>Item\<close> and
  saves it: every key of \<^verbatim>\<open>data\<close> is expected not to exist in the stored item, and the
  values that are not storable (\<^verbatim>\<open>None\<close>, the empty string, the empty set) are left
  out of what is written. \<^verbatim>\<open>data\<close> is written as the dict literal the caller builds.
\<close>

definition is_storable :: "val \<Rightarrow> bool" where
  "is_storable v = (truthy v \<or> v = PInt 0)"

definition table_put_item :: "(string \<times> val) list \<Rightarrow> store \<Rightarrow> (error + unit) \<times> store" where
  "table_put_item data s =
     conn_put_item (map_of (filter (\<lambda>(k, v). is_storable v) data))
       (map (\<lambda>(k, v). attribute_not_exists k) data) s"

text \<open>
  \<^verbatim>\<open>with table.batch_write() as batch: batch.delete_item(...)\<close> is boto's
  \<^verbatim>\<open>BatchTable\<close>. \<^verbatim>\<open>batch.delete_item\<close> queues a key and, when 25 keys are queued,
  calls \<^verbatim>\<open>flush\<close>: one bulk write of the queued keys, after which the queue is empty. The
  store rejects a bulk write that names a key twice. An exception raised by \<^verbatim>\<open>flush\<close>
  leaves the queue as it was. Leaving the block (\<^verbatim>\<open>__exit__\<close>, also when the block
  raised) flushes what is queued: an exception of that flush is the one the caller
  gets; when it goes through, the exception of the block, if any, is raised again.
\<close>

fun delete_rows :: "val list list \<Rightarrow> (val list \<rightharpoonup> item) \<Rightarrow> (val list \<rightharpoonup> item)" where
  "delete_rows [] r = r"
| "delete_rows (k # ks) r = delete_rows ks (r(k := None))"

fun keys_of :: "string list \<Rightarrow> item list \<Rightarrow> val list list option" where
  "keys_of kf [] = Some []"
| "keys_of kf (it # its) =
     (case key_of kf it of
        None \<Rightarrow> None
      | Some k \<Rightarrow> (case keys_of kf its of None \<Rightarrow> None | Some ks \<Rightarrow> Some (k # ks)))"

definition flush :: "item list \<Rightarrow> store \<Rightarrow> (error + unit) \<times> store" where
  "flush to_delete s =
     (case keys_of (key_fields s) to_delete of
        None \<Rightarrow> (Inl ValidationException, s)
      | Some ks \<Rightarrow>
          if distinct ks
          then (case request s of
                  (True, s1) \<Rightarrow> (Inl ProvisionedThroughputExceededException, s1)
                | (False, s1) \<Rightarrow> (Inr (), s1\<lparr>rows := delete_rows ks (rows s1)\<rparr>))
          else (Inl ValidationException, s))"

text \<open>The block: the keys still to pass to \<^verbatim>\<open>batch.delete_item\<close>, the queue, and the
  store; the outcome comes with the queue as the block leaves it.\<close>

fun batch_delete_items ::
  "item list \<Rightarrow> item list \<Rightarrow> store \<Rightarrow> (error + unit) \<times> item list \<times> store" where
  "batch_delete_items [] to_delete s = (Inr (), to_delete, s)"
| "batch_delete_items (k # ks) to_delete s =
     (if length (to_delete @ [k]) = 25
      then (case flush (to_delete @ [k]) s of
              (Inl e, s1) \<Rightarrow> (Inl e, to_delete @ [k], s1)
            | (Inr _, s1) \<Rightarrow> batch_delete_items ks [] s1)
      else batch_delete_items ks (to_delete @ [k]) s)"

definition batch_exit :: "(error + unit) \<times> item list \<times> store \<Rightarrow> (error + unit) \<times> store" where
  "batch_exit block =
     (case block of
        (r, to_delete, s) \<Rightarrow>
          if to_delete = [] then (r, s)
          else (case flush to_delete s of
                  (Inl e, s1) \<Rightarrow> (Inl e, s1)
                | (Inr _, s1) \<Rightarrow> (r, s1)))"

definition batch_write :: "item list \<Rightarrow> store \<Rightarrow> (error + unit) \<times> store" where
  "batch_write keys s = batch_exit (batch_delete_items keys [] s)"

section \<open>Throttle tracking\<close>

text \<open>
  The decorator \<^verbatim>\<open>track_provisioned\<close>: the wrapper runs the method and, on
  \<^verbatim>\<open>ProvisionedThroughputExceededException\<close>, increments
  \<^verbatim>\<open>error.provisioned.<name of the method>\<close> and raises the exception again. Its
  argument here is the outcome of the wrapped call.
\<close>

definition track_provisioned :: "string \<Rightarrow> (error + 'a) \<times> store \<Rightarrow> (error + 'a) \<times> store" where
  "track_provisioned func_name outcome =
     (case outcome of
        (Inl ProvisionedThroughputExceededException, self) \<Rightarrow>
          (Inl ProvisionedThroughputExceededException,
           increment (''error.provisioned.'' @ func_name) self)
      | _ \<Rightarrow> outcome)"

section \<open>Storage: simplepush notifications\<close>

definition save_notification_func :: "string \<Rightarrow> string \<Rightarrow> int \<Rightarrow> store \<Rightarrow> (error + bool) \<times> store" where
  "save_notification_func uaid chid version self =
     (case conn_put_item
             [''uaid'' \<mapsto> PStr uaid, ''chid'' \<mapsto> PStr chid, ''version'' \<mapsto> PInt version]
             [Or (attribute_not_exists ''version'') (Lt ''version'' (PInt version))] self of
        (Inr _, s) \<Rightarrow> (Inr True, s)
      | (Inl ConditionalCheckFailedException, s) \<Rightarrow> (Inr False, s)
      | (Inl e, s) \<Rightarrow> (Inl e, s))"

definition save_notification :: "string \<Rightarrow> string \<Rightarrow> int \<Rightarrow> store \<Rightarrow> (error + bool) \<times> store" where
  "save_notification uaid chid version self =
     track_provisioned ''save_notification'' (save_notification_func uaid chid version self)"

text \<open>\<^verbatim>\<open>delete_notification\<close> is not decorated: it catches the throughput exception itself.
  The boolean \<^verbatim>\<open>Table.delete_item\<close> answers is dropped.\<close>

definition delete_notification :: "string \<Rightarrow> string \<Rightarrow> val \<Rightarrow> store \<Rightarrow> (error + bool) \<times> store" where
  "delete_notification uaid chid version self =
     (case (if truthy version
            then table_delete_item [''uaid'' \<mapsto> PStr uaid, ''chid'' \<mapsto> PStr chid]
                   [Eq ''version'' version] self
            else table_delete_item [''uaid'' \<mapsto> PStr uaid, ''chid'' \<mapsto> PStr chid] [] self) of
        (Inl ProvisionedThroughputExceededException, s) \<Rightarrow>
          (Inr False, increment ''error.provisioned.delete_notification'' s)
      | (Inl e, s) \<Rightarrow> (Inl e, s)
      | (Inr _, s) \<Rightarrow> (Inr True, s))"

section \<open>Message: webpush messages and the channel registry\<close>

text \<open>\<^verbatim>\<open>uuid.uuid4().hex\<close> and \<^verbatim>\<open>int(time.time())\<close> are inputs of the operations that read
  them (\<open>uuid4_hex\<close>, \<open>time_time\<close>).\<close>

definition register_channel :: "string \<Rightarrow> string \<Rightarrow> store \<Rightarrow> (error + bool) \<times> store" where
  "register_channel uaid channel_id self =
     track_provisioned ''register_channel''
       (case conn_update_item [''uaid'' \<mapsto> PStr uaid, ''chidmessageid'' \<mapsto> PStr '' '']
               [ADD ''chids'' {channel_id}] [] NO_VALUES self of
          (Inl e, s) \<Rightarrow> (Inl e, s)
        | (Inr _, s) \<Rightarrow> (Inr True, s))"

definition unregister_channel :: "string \<Rightarrow> string \<Rightarrow> store \<Rightarrow> (error + bool) \<times> store" where
  "unregister_channel uaid channel_id self =
     track_provisioned ''unregister_channel''
       (case conn_update_item [''uaid'' \<mapsto> PStr uaid, ''chidmessageid'' \<mapsto> PStr '' '']
               [DELETE ''chids'' {channel_id}] [] UPDATED_OLD self of
          (Inl e, s) \<Rightarrow> (Inl e, s)
        | (Inr result, s) \<Rightarrow>
            (case result ''chids'' of
               Some (PSet chids) \<Rightarrow> (Inr (channel_id \<in> chids), s)
             | _ \<Rightarrow> (Inr False, s)))"

definition all_channels :: "string \<Rightarrow> store \<Rightarrow> (error + bool \<times> val) \<times> store" where
  "all_channels uaid self =
     track_provisioned ''all_channels''
       (case table_get_item [''uaid'' \<mapsto> PStr uaid, ''chidmessageid'' \<mapsto> PStr '' ''] self of
          (Inr result, s) \<Rightarrow>
            (Inr (True, if truthy (item_get result ''chids'')
                        then item_get result ''chids'' else PSet {}), s)
        | (Inl ItemNotFound, s) \<Rightarrow> (Inr (False, PSet {}), s)
        | (Inl e, s) \<Rightarrow> (Inl e, s))"

definition save_channels :: "string \<Rightarrow> val \<Rightarrow> store \<Rightarrow> (error + unit) \<times> store" where
  "save_channels uaid channels self =
     track_provisioned ''save_channels''
       (table_put_item
          [(''uaid'', PStr uaid), (''chidmessageid'', PStr '' ''), (''chids'', channels)] self)"

definition store_message ::
  "string \<Rightarrow> int \<Rightarrow> string \<Rightarrow> string \<Rightarrow> string \<Rightarrow> val \<Rightarrow> val \<Rightarrow> val \<Rightarrow> val \<Rightarrow> store
     \<Rightarrow> (error + bool) \<times> store" where
  "store_message uuid4_hex time_time uaid channel_id message_id ttl data headers timestamp self =
     track_provisioned ''store_message''
       (case table_put_item
               [(''uaid'', PStr uaid),
                (''chidmessageid'', PStr (channel_id @ '':'' @ message_id)),
                (''data'', data),
                (''headers'', headers),
                (''ttl'', ttl),
                (''timestamp'', if truthy timestamp then timestamp else PInt time_time),
                (''updateid'', PStr uuid4_hex)] self of
          (Inl e, s) \<Rightarrow> (Inl e, s)
        | (Inr _, s) \<Rightarrow> (Inr True, s))"

definition update_message ::
  "string \<Rightarrow> int \<Rightarrow> string \<Rightarrow> string \<Rightarrow> string \<Rightarrow> val \<Rightarrow> val \<Rightarrow> val \<Rightarrow> val \<Rightarrow> store
     \<Rightarrow> (error + bool) \<times> store" where
  "update_message uuid4_hex time_time uaid channel_id message_id ttl data headers timestamp self =
     track_provisioned ''update_message''
       (let item = [''ttl'' \<mapsto> ttl,
                    ''timestamp'' \<mapsto> (if truthy timestamp then timestamp else PInt time_time),
                    ''updateid'' \<mapsto> PStr uuid4_hex];
            item = (if truthy data then item(''headers'' \<mapsto> headers, ''data'' \<mapsto> data) else item);
            db_key = [''uaid'' \<mapsto> PStr uaid,
                      ''chidmessageid'' \<mapsto> PStr (channel_id @ '':'' @ message_id)];
            expr = (if truthy data then [SET item]
                    else [SET item, REMOVE [''data'', ''headers'']])
        in case conn_update_item db_key expr [attribute_exists ''updateid''] NO_VALUES self of
             (Inl ConditionalCheckFailedException, s) \<Rightarrow> (Inr False, s)
           | (Inl e, s) \<Rightarrow> (Inl e, s)
           | (Inr _, s) \<Rightarrow> (Inr True, s))"

definition delete_message ::
  "string \<Rightarrow> string \<Rightarrow> string \<Rightarrow> val \<Rightarrow> store \<Rightarrow> (error + bool) \<times> store" where
  "delete_message uaid channel_id message_id updateid self =
     track_provisioned ''delete_message''
       (let raw_key = [''uaid'' \<mapsto> PStr uaid,
                       ''chidmessageid'' \<mapsto> PStr (channel_id @ '':'' @ message_id)]
        in if truthy updateid
           then (case table_delete_item raw_key [Eq ''updateid'' updateid] self of
                   (Inl ConditionalCheckFailedException, s) \<Rightarrow> (Inr False, s)
                 | (Inl e, s) \<Rightarrow> (Inl e, s)
                 | (Inr _, s) \<Rightarrow> (Inr True, s))
           else (case table_delete_item raw_key [] self of
                   (Inl e, s) \<Rightarrow> (Inl e, s)
                 | (Inr _, s) \<Rightarrow> (Inr True, s)))"

text \<open>\<^verbatim>\<open>delete_messages\<close> carries no decorator.\<close>

definition delete_messages :: "string \<Rightarrow> val list \<Rightarrow> store \<Rightarrow> (error + unit) \<times> store" where
  "delete_messages uaid chidmessageids self =
     batch_write
       (map (\<lambda>chidmessageid. [''uaid'' \<mapsto> PStr uaid, ''chidmessageid'' \<mapsto> chidmessageid])
          (filter truthy chidmessageids)) self"

section \<open>Router: the node that holds a user\<close>

text \<open>\<^verbatim>\<open>get_uaid\<close> counts a refused request itself. (Its second handler, which turns a
  malformed response of the transport into \<^verbatim>\<open>ItemNotFound\<close>, has no counterpart here:
  the store of this model answers well-formed responses only.)\<close>

definition get_uaid :: "string \<Rightarrow> store \<Rightarrow> (error + item) \<times> store" where
  "get_uaid uaid self =
     (case table_get_item [''uaid'' \<mapsto> PStr uaid] self of
        (Inl ProvisionedThroughputExceededException, s) \<Rightarrow>
          (Inl ProvisionedThroughputExceededException,
           increment ''error.provisioned.get_uaid'' s)
      | r \<Rightarrow> r)"

text \<open>\<^verbatim>\<open>data.pop(key)\<close> on a dict: the value and the dict without the key, or
  \<^verbatim>\<open>KeyError\<close> and the dict as it was.\<close>

definition dict_pop :: "item \<Rightarrow> string \<Rightarrow> (error + val) \<times> item" where
  "dict_pop d k = (case d k of None \<Rightarrow> (Inl KeyError, d) | Some v \<Rightarrow> (Inr v, d(k := None)))"

text \<open>
  \<^verbatim>\<open>register_user\<close>: the update expression sets every remaining key of \<^verbatim>\<open>data\<close> to its
  value. The condition names the placeholders \<^verbatim>\<open>:router_type\<close> and \<^verbatim>\<open>:connected_at\<close>,
  which \<^verbatim>\<open>expr_values\<close> defines only when \<^verbatim>\<open>data\<close> has these keys: the store rejects
  an expression with an undefined placeholder. The second component of the outcome is
  the caller's dict after the call.
\<close>

definition register_user_func :: "item \<Rightarrow> store \<Rightarrow> (error + bool \<times> item) \<times> item \<times> store" where
  "register_user_func data self =
     (case dict_pop data ''uaid'' of
        (Inl e, data) \<Rightarrow> (Inl e, data, self)
      | (Inr uaid, data) \<Rightarrow>
          (case (data ''router_type'', data ''connected_at'') of
             (Some router_type, Some connected_at) \<Rightarrow>
               (case conn_update_item [''uaid'' \<mapsto> uaid] [SET data]
                       [And (Or (attribute_not_exists ''router_type'')
                                (Eq ''router_type'' router_type))
                            (Or (attribute_not_exists ''node_id'')
                                (Lt ''connected_at'' connected_at))]
                       ALL_OLD self of
                  (Inr result, s) \<Rightarrow> (Inr (True, result), data, s)
                | (Inl ConditionalCheckFailedException, s) \<Rightarrow> (Inr (False, Map.empty), data, s)
                | (Inl e, s) \<Rightarrow> (Inl e, data, s))
           | _ \<Rightarrow> (Inl ValidationException, data, self)))"

definition register_user :: "item \<Rightarrow> store \<Rightarrow> (error + bool \<times> item) \<times> item \<times> store" where
  "register_user data self =
     (case register_user_func data self of
        (r, data', s) \<Rightarrow> (case track_provisioned ''register_user'' (r, s) of
                            (r', s') \<Rightarrow> (r', data', s')))"

definition drop_user :: "string \<Rightarrow> store \<Rightarrow> (error + bool) \<times> store" where
  "drop_user uaid self =
     track_provisioned ''drop_user''
       (table_delete_item [''uaid'' \<mapsto> PStr uaid] [Eq ''uaid'' (PStr uaid)] self)"

definition update_message_month :: "string \<Rightarrow> val \<Rightarrow> store \<Rightarrow> (error + bool) \<times> store" where
  "update_message_month uaid month_name self =
     track_provisioned ''update_message_month''
       (case conn_update_item [''uaid'' \<mapsto> PStr uaid] [SET [''current_month'' \<mapsto> month_name]]
               [] NO_VALUES self of
          (Inl e, s) \<Rightarrow> (Inl e, s)
        | (Inr _, s) \<Rightarrow> (Inr True, s))"

text \<open>
  \<^verbatim>\<open>item.get_raw_keys()\<close> of a boto \<^verbatim>\<open>Item\<close>: the encoded values of the table's key
  fields, and of these only (\<^verbatim>\<open>Item.get_keys\<close> reads \<^verbatim>\<open>table.get_key_fields()\<close>).
\<close>

definition get_raw_keys :: "string list \<Rightarrow> item \<Rightarrow> item" where
  "get_raw_keys kf it = map_of (map (\<lambda>k. (k, item_get it k)) kf)"

text \<open>\<^verbatim>\<open>clear_node\<close>; the second component of the outcome is the caller's item after the
  call.\<close>

definition clear_node_func :: "item \<Rightarrow> store \<Rightarrow> (error + bool) \<times> item \<times> store" where
  "clear_node_func item self =
     (let node_id = item_get item ''node_id'';
          item = item_del item ''node_id''
      in case conn_put_item (get_raw_keys (key_fields self) item)
                [And (Eq ''node_id'' node_id) (Eq ''connected_at'' (item_get item ''connected_at''))]
                self of
           (Inr _, s) \<Rightarrow> (Inr True, item, s)
         | (Inl ConditionalCheckFailedException, s) \<Rightarrow> (Inr False, item, s)
         | (Inl e, s) \<Rightarrow> (Inl e, item, s))"

definition clear_node :: "item \<Rightarrow> store \<Rightarrow> (error + bool) \<times> item \<times> store" where
  "clear_node item self =
     (case clear_node_func item self of
        (r, item', s) \<Rightarrow> (case track_provisioned ''clear_node'' (r, s) of
                            (r', s') \<Rightarrow> (r', item', s')))"

section \<open>Partition names\<close>

text \<open>
  A \<^verbatim>\<open>datetime.date\<close> is a year, a month and a day of the proleptic Gregorian
  calendar. \<^verbatim>\<open>date + timedelta(days=n)\<close> moves \<open>n\<close> days forward (backward for a
  negative \<open>n\<close>), one day at a time here, and raises \<^verbatim>\<open>OverflowError\<close> when the
  result leaves the years 1 to 9999. \<^verbatim>\<open>datetime.date.today()\<close> is the input \<open>today\<close>.
\<close>

record date =
  year :: int
  month :: nat
  day :: nat

definition is_leap :: "int \<Rightarrow> bool" where
  "is_leap y = (y mod 4 = 0 \<and> (y mod 100 \<noteq> 0 \<or> y mod 400 = 0))"

definition days_in_month :: "int \<Rightarrow> nat \<Rightarrow> nat" where
  "days_in_month y m =
     (if m = 2 then (if is_leap y then 29 else 28)
      else if m = 4 \<or> m = 6 \<or> m = 9 \<or> m = 11 then 30 else 31)"

definition tomorrow :: "date \<Rightarrow> date" where
  "tomorrow d =
     (if day d < days_in_month (year d) (month d) then d\<lparr>day := day d + 1\<rparr>
      else if month d < 12 then d\<lparr>month := month d + 1, day := 1\<rparr>
      else d\<lparr>year := year d + 1, month := 1, day := 1\<rparr>)"

definition yesterday :: "date \<Rightarrow> date" where
  "yesterday d =
     (if 1 < day d then d\<lparr>day := day d - 1\<rparr>
      else if 1 < month d
      then d\<lparr>month := month d - 1, day := days_in_month (year d) (month d - 1)\<rparr>
      else d\<lparr>year := year d - 1, month := 12, day := 31\<rparr>)"

definition date_add_days :: "date \<Rightarrow> int \<Rightarrow> error + date" where
  "date_add_days d n =
     (let r = (if n < 0 then (yesterday ^^ nat (- n)) d else (tomorrow ^^ nat n) d)
      in if year r < 1 \<or> 9999 < year r then Inl OverflowError else Inr r)"

lemma dim_ge: "28 \<le> days_in_month y m"
  by (simp add: days_in_month_def)

lemma tomorrow_same: "day d + k \<le> days_in_month (year d) (month d) \<Longrightarrow>
   (tomorrow ^^ k) d = d\<lparr>day := day d + k\<rparr>"
proof (induction k)
  case 0 show ?case by simp
next
  case (Suc k)
  then have "(tomorrow ^^ k) d = d\<lparr>day := day d + k\<rparr>" by simp
  moreover have "tomorrow (d\<lparr>day := day d + k\<rparr>) = d\<lparr>day := day d + Suc k\<rparr>"
    using Suc.prems by (simp add: tomorrow_def)
  ultimately show ?case by simp
qed

lemma yesterday_same: "k < day d \<Longrightarrow> (yesterday ^^ k) d = d\<lparr>day := day d - k\<rparr>"
proof (induction k)
  case 0 show ?case by simp
next
  case (Suc k)
  then have "(yesterday ^^ k) d = d\<lparr>day := day d - k\<rparr>" by simp
  moreover have "yesterday (d\<lparr>day := day d - k\<rparr>) = d\<lparr>day := day d - Suc k\<rparr>"
    using Suc.prems by (simp add: yesterday_def)
  ultimately show ?case by simp
qed

text \<open>The first day of the next calendar month and the last day of the previous one.\<close>

definition first_of_next :: "date \<Rightarrow> date" where
  "first_of_next d = (if month d < 12 then d\<lparr>month := month d + 1, day := 1\<rparr>
      else d\<lparr>year := year d + 1, month := 1, day := 1\<rparr>)"

definition last_of_prev :: "date \<Rightarrow> date" where
  "last_of_prev d = (if 1 < month d
      then d\<lparr>month := month d - 1, day := days_in_month (year d) (month d - 1)\<rparr>
      else d\<lparr>year := year d - 1, month := 12, day := 31\<rparr>)"

lemma tomorrow_14:
  "(tomorrow ^^ 14) d =
     (if day d + 14 \<le> days_in_month (year d) (month d) then d\<lparr>day := day d + 14\<rparr>
      else (first_of_next d)\<lparr>day := 14 - (days_in_month (year d) (month d) - day d)\<rparr>)"
proof (cases "day d + 14 \<le> days_in_month (year d) (month d)")
  case True
  then show ?thesis by (simp add: tomorrow_same)
next
  case False
  define j where "j = days_in_month (year d) (month d) - day d"
  have j: "j < 14" using False by (simp add: j_def)
  define e where "e = (tomorrow ^^ j) d"
  have e: "e = d\<lparr>day := day d + j\<rparr>" if "day d \<le> days_in_month (year d) (month d)"
    unfolding e_def using that by (intro tomorrow_same) (simp add: j_def)
  have e0: "e = d" if "\<not> day d \<le> days_in_month (year d) (month d)"
    unfolding e_def using that by (simp add: j_def)
  have te: "tomorrow e = first_of_next d"
  proof (cases "day d \<le> days_in_month (year d) (month d)")
    case True
    then show ?thesis using e[OF True] by (simp add: tomorrow_def first_of_next_def j_def)
  next
    case False
    then show ?thesis using e0[OF False] by (simp add: tomorrow_def first_of_next_def)
  qed
  have eq: "(14::nat) = (13 - j) + Suc j" using j by simp
  have "(tomorrow ^^ 14) d = (tomorrow ^^ (13 - j)) (tomorrow ((tomorrow ^^ j) d))"
    by (subst eq) (simp add: funpow_add funpow_swap1)
  also have "\<dots> = (tomorrow ^^ (13 - j)) (first_of_next d)"
    using te by (simp add: e_def)
  also have "\<dots> = (first_of_next d)\<lparr>day := day (first_of_next d) + (13 - j)\<rparr>"
  proof (rule tomorrow_same)
    have "day (first_of_next d) = 1" by (simp add: first_of_next_def)
    moreover have "28 \<le> days_in_month (year (first_of_next d)) (month (first_of_next d))"
      by (rule dim_ge)
    ultimately show "day (first_of_next d) + (13 - j)
        \<le> days_in_month (year (first_of_next d)) (month (first_of_next d))" by simp
  qed
  also have "day (first_of_next d) + (13 - j) = 14 - j"
    using j by (simp add: first_of_next_def)
  finally show ?thesis using False by (simp add: j_def)
qed

lemma yesterday_14:
  "(yesterday ^^ 14) d =
     (if 14 < day d then d\<lparr>day := day d - 14\<rparr>
      else (last_of_prev d)\<lparr>day := day (last_of_prev d) - (13 - (day d - 1))\<rparr>)"
proof (cases "14 < day d")
  case True
  then show ?thesis by (simp add: yesterday_same)
next
  case False
  define j where "j = day d - 1"
  have j: "j < 14" using False by (simp add: j_def)
  define e where "e = (yesterday ^^ j) d"
  have e: "e = d\<lparr>day := day d - j\<rparr>"
    unfolding e_def 
  proof (cases "j = 0")
    case True then show "(yesterday ^^ j) d = d\<lparr>day := day d - j\<rparr>" by simp
  next
    case False then show "(yesterday ^^ j) d = d\<lparr>day := day d - j\<rparr>" 
      by (intro yesterday_same) (simp add: j_def)
  qed
  have te: "yesterday e = last_of_prev d"
    using e by (simp add: yesterday_def last_of_prev_def j_def)
  have eq: "(14::nat) = (13 - j) + Suc j" using j by simp
  have "(yesterday ^^ 14) d = (yesterday ^^ (13 - j)) (yesterday ((yesterday ^^ j) d))"
    by (subst eq) (simp add: funpow_add funpow_swap1)
  also have "\<dots> = (yesterday ^^ (13 - j)) (last_of_prev d)"
    using te by (simp add: e_def)
  also have "\<dots> = (last_of_prev d)\<lparr>day := day (last_of_prev d) - (13 - j)\<rparr>"
  proof (rule yesterday_same)
    have "28 \<le> day (last_of_prev d)" by (simp add: last_of_prev_def dim_ge)
    then show "13 - j < day (last_of_prev d)" by simp
  qed
  finally show ?thesis using False by (simp add: j_def)
qed


lemma month_first_of_next: "month (first_of_next d) \<noteq> month d"
  by (simp add: first_of_next_def)

lemma month_last_of_prev: "month (last_of_prev d) \<noteq> month d"
  by (auto simp add: last_of_prev_def)

text \<open>The inner loop of \<^verbatim>\<open>get_month\<close>:
  \<^verbatim>\<open>while new.month == last.month: new -= / += timedelta(days=14)\<close>.\<close>

function until_new_month :: "int \<Rightarrow> date \<Rightarrow> date \<Rightarrow> error + date" where
  "until_new_month delta last0 new =
     (if month new = month last0
      then (case date_add_days new (if delta < 0 then - 14 else 14) of
              Inl e \<Rightarrow> Inl e
            | Inr new' \<Rightarrow> until_new_month delta last0 new')
      else Inr new)"
  by pat_completeness auto
termination
proof (relation "measure (\<lambda>(delta, last0, new).
          if month new = month last0
          then (if delta < 0 then Suc (day new)
                else Suc (days_in_month (year new) (month new) - day new))
          else 0)", goal_cases)
  case 1
  show ?case by simp
next
  case (2 delta last0 new x)
  show ?case
  proof (cases "delta < 0")
    case True
    with 2 have x: "x = (yesterday ^^ 14) new"
      by (simp add: date_add_days_def Let_def split: if_splits)
    show ?thesis
    proof (cases "14 < day new")
      case True
      then have "x = new\<lparr>day := day new - 14\<rparr>" using x by (simp add: yesterday_14)
      then show ?thesis using 2 True \<open>delta < 0\<close> by simp
    next
      case False
      then have "month x = month (last_of_prev new)" using x by (simp add: yesterday_14)
      then have "month x \<noteq> month last0" using 2 month_last_of_prev[of new] by simp
      then show ?thesis using 2 \<open>delta < 0\<close> by simp
    qed
  next
    case False
    with 2 have x: "x = (tomorrow ^^ 14) new"
      by (simp add: date_add_days_def Let_def split: if_splits)
    show ?thesis
    proof (cases "day new + 14 \<le> days_in_month (year new) (month new)")
      case True
      then have "x = new\<lparr>day := day new + 14\<rparr>" using x by (simp add: tomorrow_14)
      then show ?thesis using 2 True \<open>\<not> delta < 0\<close> by simp
    next
      case F: False
      then have "month x = month (first_of_next new)" using x by (simp add: tomorrow_14)
      then have "month x \<noteq> month last0" using 2 month_first_of_next[of new] by simp
      then show ?thesis using 2 \<open>\<not> delta < 0\<close> by simp
    qed
  qed
qed

declare until_new_month.simps [simp del]

definition valid_date :: "date \<Rightarrow> bool" where
  "valid_date d = (1 \<le> year d \<and> year d \<le> 9999 \<and> 1 \<le> month d \<and> month d \<le> 12 \<and>
      1 \<le> day d \<and> day d \<le> days_in_month (year d) (month d))"

lemma until_new_month_forward:
  "0 \<le> delta \<Longrightarrow> valid_date new \<Longrightarrow> month last0 = month new \<Longrightarrow>
   year (first_of_next new) \<le> 9999 \<Longrightarrow>
   \<exists>x. until_new_month delta last0 new = Inr x \<and> valid_date x \<and>
       year x = year (first_of_next new) \<and> month x = month (first_of_next new)"
proof (induction delta last0 new rule: until_new_month.induct)
  case (1 delta last0 new)
  let ?r = "(tomorrow ^^ 14) new"
  have yr: "1 \<le> year new" "year new \<le> 9999" using 1(3) by (simp_all add: valid_date_def)
  show ?case
  proof (cases "day new + 14 \<le> days_in_month (year new) (month new)")
    case True
    then have r: "?r = new\<lparr>day := day new + 14\<rparr>" by (simp add: tomorrow_14)
    then have add: "date_add_days new (if delta < 0 then - 14 else 14) = Inr ?r"
      using 1(2) yr by (simp add: date_add_days_def Let_def)
    have v: "valid_date ?r" using 1(3) True r by (simp add: valid_date_def)
    have f: "first_of_next ?r = first_of_next new" using r by (simp add: first_of_next_def)
    have "\<exists>x. until_new_month delta last0 ?r = Inr x \<and> valid_date x \<and>
       year x = year (first_of_next ?r) \<and> month x = month (first_of_next ?r)"
      using 1(1)[OF _ add 1(2) v] 1(4) 1(5) r f by simp
    then show ?thesis
      using add 1(4) f by (subst until_new_month.simps) simp
  next
    case False
    then have r: "?r = (first_of_next new)\<lparr>day := 14 - (days_in_month (year new) (month new) - day new)\<rparr>"
      by (simp add: tomorrow_14)
    have y1: "1 \<le> year (first_of_next new)" using yr by (simp add: first_of_next_def)
    have add: "date_add_days new (if delta < 0 then - 14 else 14) = Inr ?r"
      using 1(2) y1 1(5) r by (simp add: date_add_days_def Let_def)
    have m: "month ?r \<noteq> month last0" using r 1(4) month_first_of_next[of new] by simp
    have "1 \<le> month (first_of_next new) \<and> month (first_of_next new) \<le> 12"
      using 1(3) by (simp add: first_of_next_def valid_date_def)
    moreover have "28 \<le> days_in_month (year (first_of_next new)) (month (first_of_next new))"
      by (rule dim_ge)
    ultimately have v: "valid_date ?r"
      using r y1 1(5) 1(3) False unfolding valid_date_def by (simp, arith)
    have "until_new_month delta last0 ?r = Inr ?r"
      using m by (subst until_new_month.simps) simp
    then show ?thesis
      using add 1(4) v r by (subst until_new_month.simps) simp
  qed
qed

lemma until_new_month_backward:
  "delta < 0 \<Longrightarrow> valid_date new \<Longrightarrow> month last0 = month new \<Longrightarrow>
   1 \<le> year (last_of_prev new) \<Longrightarrow>
   \<exists>x. until_new_month delta last0 new = Inr x \<and> valid_date x \<and>
       year x = year (last_of_prev new) \<and> month x = month (last_of_prev new)"
proof (induction delta last0 new rule: until_new_month.induct)
  case (1 delta last0 new)
  let ?r = "(yesterday ^^ 14) new"
  have yr: "1 \<le> year new" "year new \<le> 9999" using 1(3) by (simp_all add: valid_date_def)
  show ?case
  proof (cases "14 < day new")
    case True
    then have r: "?r = new\<lparr>day := day new - 14\<rparr>" by (simp add: yesterday_14)
    then have add: "date_add_days new (if delta < 0 then - 14 else 14) = Inr ?r"
      using 1(2) yr by (simp add: date_add_days_def Let_def)
    have v: "valid_date ?r" using 1(3) True r unfolding valid_date_def by (simp, arith)
    have f: "last_of_prev ?r = last_of_prev new" using r by (simp add: last_of_prev_def)
    have "\<exists>x. until_new_month delta last0 ?r = Inr x \<and> valid_date x \<and>
       year x = year (last_of_prev ?r) \<and> month x = month (last_of_prev ?r)"
      using 1(1)[OF _ add 1(2) v] 1(4) 1(5) r f by simp
    then show ?thesis
      using add 1(4) f by (subst until_new_month.simps) simp
  next
    case False
    then have r: "?r = (last_of_prev new)\<lparr>day := day (last_of_prev new) - (13 - (day new - 1))\<rparr>"
      by (simp add: yesterday_14)
    have y1: "year (last_of_prev new) \<le> 9999" using yr by (simp add: last_of_prev_def)
    have add: "date_add_days new (if delta < 0 then - 14 else 14) = Inr ?r"
      using 1(2) y1 1(5) r by (simp add: date_add_days_def Let_def)
    have m: "month ?r \<noteq> month last0" using r 1(4) month_last_of_prev[of new] by simp
    have mm: "1 \<le> month (last_of_prev new) \<and> month (last_of_prev new) \<le> 12"
      using 1(3) by (auto simp add: last_of_prev_def valid_date_def)
    have dd: "day (last_of_prev new) = days_in_month (year (last_of_prev new)) (month (last_of_prev new))"
      by (simp add: last_of_prev_def days_in_month_def)
    have "28 \<le> days_in_month (year (last_of_prev new)) (month (last_of_prev new))"
      by (rule dim_ge)
    then have v: "valid_date ?r"
      using r y1 1(5) 1(3) False mm dd unfolding valid_date_def by (simp, arith)
    have "until_new_month delta last0 ?r = Inr ?r"
      using m by (subst until_new_month.simps) simp
    then show ?thesis
      using add 1(4) v r by (subst until_new_month.simps) simp
  qed
qed


text \<open>The outer loop \<^verbatim>\<open>for _ in range(abs(delta))\<close>, with \<^verbatim>\<open>last = new\<close> after each
  round.\<close>

fun months_loop :: "nat \<Rightarrow> int \<Rightarrow> date \<Rightarrow> date \<Rightarrow> error + date" where
  "months_loop 0 delta new last0 = Inr new"
| "months_loop (Suc n) delta new last0 =
     (case until_new_month delta last0 new of
        Inl e \<Rightarrow> Inl e
      | Inr new' \<Rightarrow> months_loop n delta new' new')"

definition get_month :: "date \<Rightarrow> int \<Rightarrow> error + date" where
  "get_month today delta = months_loop (nat \<bar>delta\<bar>) delta today today"

text \<open>\<^verbatim>\<open>"{}".format(n)\<close> of an integer: its decimal digits, with a sign when negative.\<close>

fun str_nat :: "nat \<Rightarrow> string" where
  "str_nat n =
     (if n < 10 then [''0123456789'' ! n]
      else str_nat (n div 10) @ [''0123456789'' ! (n mod 10)])"

declare str_nat.simps [simp del]

definition py_str :: "int \<Rightarrow> string" where
  "py_str i = (if i < 0 then CHR ''-'' # str_nat (nat (- i)) else str_nat (nat i))"

definition make_rotating_tablename :: "string \<Rightarrow> date \<Rightarrow> int \<Rightarrow> error + string" where
  "make_rotating_tablename prefix today delta =
     (case get_month today delta of
        Inl e \<Rightarrow> Inl e
      | Inr d \<Rightarrow> Inr (prefix @ ''_'' @ py_str (year d) @ ''_'' @ py_str (int (month d))))"

section \<open>Sequences of saves\<close>

text \<open>The vocabulary of the statements about \<^verbatim>\<open>save_notification\<close>: the version stored
  for a user and channel, a run of saves for one user and channel with the outcome
  of each, and the versions of the saves that returned \<^verbatim>\<open>True\<close>.\<close>

definition stored_version :: "store \<Rightarrow> string \<Rightarrow> string \<Rightarrow> val option" where
  "stored_version self uaid chid =
     (case rows self [PStr uaid, PStr chid] of None \<Rightarrow> None | Some it \<Rightarrow> it ''version'')"

fun save_all :: "string \<Rightarrow> string \<Rightarrow> int list \<Rightarrow> store \<Rightarrow> (error + bool) list \<times> store" where
  "save_all uaid chid [] self = ([], self)"
| "save_all uaid chid (v # vs) self =
     (case save_notification uaid chid v self of
        (r, s) \<Rightarrow> (case save_all uaid chid vs s of (rs, s') \<Rightarrow> (r # rs, s')))"

definition succeeded :: "int list \<Rightarrow> (error + bool) list \<Rightarrow> int list" where
  "succeeded vs rs = map fst (filter (\<lambda>(v, r). r = Inr True) (zip vs rs))"

section \<open>Store requests, step by step\<close>

lemma request_cases:
  "request s = (b, s1) \<Longrightarrow>
     key_fields s1 = key_fields s \<and> rows s1 = rows s \<and> metrics s1 = metrics s"
  by (auto simp: request_def split: list.splits)

lemma request_fields [simp]:
  "key_fields (snd (request s)) = key_fields s"
  "rows (snd (request s)) = rows s"
  "metrics (snd (request s)) = metrics s"
  by (auto simp: request_def split: list.splits)

lemma current_request [simp]: "current (snd (request s)) k = current s k"
  by (simp add: current_def)

lemma conn_put_item_eq:
  "key_of (key_fields s) it = Some k \<Longrightarrow>
   conn_put_item it conds s =
     (if fst (request s) then (Inl ProvisionedThroughputExceededException, snd (request s))
      else if list_all (\<lambda>c. holds c (current s k)) conds
      then (Inr (), (snd (request s))\<lparr>rows := (rows s)(k \<mapsto> it)\<rparr>)
      else (Inl ConditionalCheckFailedException, snd (request s)))"
proof -
  obtain b s1 where r: "request s = (b, s1)" by (cases "request s")
  assume k: "key_of (key_fields s) it = Some k"
  have "rows s1 = rows s" "current s1 k = current s k"
    using request_cases[OF r] by (simp_all add: current_def)
  then show ?thesis using r k by (simp add: conn_put_item_def)
qed

lemma save_notification_eq:
  assumes kf: "key_fields self = [''uaid'', ''chid'']"
  shows "save_notification uaid chid version self =
     (if fst (request self)
      then (Inl ProvisionedThroughputExceededException,
            increment ''error.provisioned.save_notification'' (snd (request self)))
      else if (case stored_version self uaid chid of None \<Rightarrow> True | Some w \<Rightarrow> val_less w (PInt version))
      then (Inr True, (snd (request self))\<lparr>rows := (rows self)([PStr uaid, PStr chid] \<mapsto>
              [''uaid'' \<mapsto> PStr uaid, ''chid'' \<mapsto> PStr chid, ''version'' \<mapsto> PInt version])\<rparr>)
      else (Inr False, snd (request self)))"
proof -
  have k: "key_of (key_fields self)
      [''uaid'' \<mapsto> PStr uaid, ''chid'' \<mapsto> PStr chid, ''version'' \<mapsto> PInt version] = Some [PStr uaid, PStr chid]"
    by (simp add: kf)
  show ?thesis
    unfolding save_notification_def save_notification_func_def conn_put_item_eq[OF k]
    by (auto simp: track_provisioned_def stored_version_def current_def split: option.splits)
qed


lemma stored_version_simps [simp]:
  "stored_version (increment n s) u c = stored_version s u c"
  "stored_version (snd (request s)) u c = stored_version s u c"
  "stored_version (s\<lparr>rows := (rows s0)([PStr u, PStr c] \<mapsto> it)\<rparr>) u c = it ''version''"
  by (simp_all add: stored_version_def increment_def)

lemma key_fields_simps [simp]:
  "key_fields (increment n s) = key_fields s"
  by (simp add: increment_def)

lemma succeeded_Cons:
  "succeeded (v # vs) (r # rs) = (if r = Inr True then v # succeeded vs rs else succeeded vs rs)"
  by (simp add: succeeded_def)

lemma save_all_from_version:
  "key_fields s = [''uaid'', ''chid''] \<Longrightarrow> stored_version s uaid chid = Some (PInt w) \<Longrightarrow>
   save_all uaid chid vs s = (rs, s') \<Longrightarrow>
   stored_version s' uaid chid = Some (PInt (Max (insert w (set (succeeded vs rs)))))"
proof (induction vs arbitrary: s w rs s')
  case Nil
  then show ?case by (simp add: succeeded_def)
next
  case (Cons v vs)
  obtain r s1 where r: "save_notification uaid chid v s = (r, s1)"
    by (cases "save_notification uaid chid v s")
  obtain rs1 where rs1: "save_all uaid chid vs s1 = (rs1, s')" and rs: "rs = r # rs1"
    using Cons.prems(3) r by (auto split: prod.splits)
  note eq = save_notification_eq[OF Cons.prems(1), of uaid chid v]
  consider (throttled) "fst (request s)"
    | (newer) "\<not> fst (request s)" "w < v"
    | (stale) "\<not> fst (request s)" "\<not> w < v" by blast
  then show ?case
  proof cases
    case throttled
    then have s1: "key_fields s1 = [''uaid'', ''chid'']" "stored_version s1 uaid chid = Some (PInt w)"
      and "r \<noteq> Inr True"
      using r eq Cons.prems(1,2) by auto
    then show ?thesis using Cons.IH[OF s1 rs1] rs by (simp add: succeeded_Cons)
  next
    case newer
    then have s1: "key_fields s1 = [''uaid'', ''chid'']" "stored_version s1 uaid chid = Some (PInt v)"
      and "r = Inr True"
      using r eq Cons.prems(1,2) by auto
    moreover have "Max (insert v (set (succeeded vs rs1))) = Max (insert w (insert v (set (succeeded vs rs1))))"
    proof -
      let ?S = "insert v (set (succeeded vs rs1))"
      have "v \<le> Max ?S" by (rule Max_ge) auto
      then have "w \<le> Max ?S" using newer(2) by linarith
      then have "max w (Max ?S) = Max ?S" by (rule max_absorb2)
      moreover have "Max (insert w ?S) = max w (Max ?S)" by (rule Max_insert) auto
      ultimately show ?thesis by simp
    qed
    ultimately show ?thesis using Cons.IH[OF s1 rs1] rs by (simp add: succeeded_Cons)
  next
    case stale
    then have s1: "key_fields s1 = [''uaid'', ''chid'']" "stored_version s1 uaid chid = Some (PInt w)"
      and "r \<noteq> Inr True"
      using r eq Cons.prems(1,2) by auto
    then show ?thesis using Cons.IH[OF s1 rs1] rs by (simp add: succeeded_Cons)
  qed
qed

lemma save_all_max:
  "key_fields s = [''uaid'', ''chid''] \<Longrightarrow> save_all uaid chid vs s = (rs, s') \<Longrightarrow>
   succeeded vs rs \<noteq> [] \<Longrightarrow>
   stored_version s' uaid chid = Some (PInt (Max (set (succeeded vs rs))))"
proof (induction vs arbitrary: s rs s')
  case Nil
  then show ?case by (simp add: succeeded_def)
next
  case (Cons v vs)
  obtain r s1 where r: "save_notification uaid chid v s = (r, s1)"
    by (cases "save_notification uaid chid v s")
  obtain rs1 where rs1: "save_all uaid chid vs s1 = (rs1, s')" and rs: "rs = r # rs1"
    using Cons.prems(2) r by (auto split: prod.splits)
  note eq = save_notification_eq[OF Cons.prems(1), of uaid chid v]
  have kf1: "key_fields s1 = [''uaid'', ''chid'']"
    using r eq Cons.prems(1) by (auto split: if_splits)
  show ?case
  proof (cases "r = Inr True")
    case True
    then have "stored_version s1 uaid chid = Some (PInt v)"
      using r eq by (auto split: if_splits)
    from save_all_from_version[OF kf1 this rs1] show ?thesis
      using True rs by (simp add: succeeded_Cons)
  next
    case False
    then show ?thesis using Cons.IH[OF kf1 rs1] Cons.prems(3) rs by (simp add: succeeded_Cons)
  qed
qed

section \<open>Saving a notification is monotonic\<close>

text \<open>
  C4. On the storage table, a served \<^verbatim>\<open>save_notification\<close> on a record that is absent
  or carries an integer version (every record the module writes does) returns
  \<^verbatim>\<open>True\<close> exactly when no record exists or the stored version is strictly less than
  the new one, and then stores the new version; otherwise it returns \<^verbatim>\<open>False\<close> and
  leaves the table as it was. After any run of saves for one user and channel
  (refused requests included), when some save succeeded the stored version is the
  maximum of the versions whose save succeeded. A save with a version lower than the
  stored one returns \<^verbatim>\<open>False\<close> and changes no record.
\<close>

theorem save_notification_monotonic:
  assumes kf: "key_fields self = [''uaid'', ''chid'']"
  shows "(\<not> fst (request self) \<longrightarrow>
            (rows self [PStr uaid, PStr chid] = None \<or>
               (\<exists>w. stored_version self uaid chid = Some (PInt w))) \<longrightarrow>
            save_notification uaid chid version self =
              (if rows self [PStr uaid, PStr chid] = None \<or>
                  (\<exists>w. stored_version self uaid chid = Some (PInt w) \<and> w < version)
               then (Inr True, (snd (request self))\<lparr>rows := (rows self)([PStr uaid, PStr chid] \<mapsto>
                       [''uaid'' \<mapsto> PStr uaid, ''chid'' \<mapsto> PStr chid, ''version'' \<mapsto> PInt version])\<rparr>)
               else (Inr False, snd (request self))))
       \<and> (\<forall>rs self'. save_all uaid chid versions self = (rs, self') \<longrightarrow> succeeded versions rs \<noteq> [] \<longrightarrow>
            stored_version self' uaid chid = Some (PInt (Max (set (succeeded versions rs)))))
       \<and> (\<forall>w. \<not> fst (request self) \<longrightarrow> stored_version self uaid chid = Some (PInt w) \<longrightarrow> version < w \<longrightarrow>
            fst (save_notification uaid chid version self) = Inr False \<and>
            rows (snd (save_notification uaid chid version self)) = rows self)"
proof -
  note eq = save_notification_eq[OF kf, of uaid chid version]
  have a: "save_notification uaid chid version self =
              (if rows self [PStr uaid, PStr chid] = None \<or>
                  (\<exists>w. stored_version self uaid chid = Some (PInt w) \<and> w < version)
               then (Inr True, (snd (request self))\<lparr>rows := (rows self)([PStr uaid, PStr chid] \<mapsto>
                       [''uaid'' \<mapsto> PStr uaid, ''chid'' \<mapsto> PStr chid, ''version'' \<mapsto> PInt version])\<rparr>)
               else (Inr False, snd (request self)))"
    if "\<not> fst (request self)"
      and "rows self [PStr uaid, PStr chid] = None \<or> (\<exists>w. stored_version self uaid chid = Some (PInt w))"
    using that eq by (auto simp: stored_version_def)
  have c: "fst (save_notification uaid chid version self) = Inr False \<and>
            rows (snd (save_notification uaid chid version self)) = rows self"
    if "\<not> fst (request self)" "stored_version self uaid chid = Some (PInt w)" "version < w" for w
    using that eq by simp
  show ?thesis using a c save_all_max[OF kf] by blast
qed


theorem save_notification_monotonic_witness:
  "fst (save_notification ''u1'' ''c1'' 1
          \<lparr>key_fields = [''uaid'', ''chid''], rows = Map.empty, faults = [], metrics = []\<rparr>) = Inr True
   \<and> stored_version
        (snd (save_all ''u1'' ''c1'' [1, 3, 2]
               \<lparr>key_fields = [''uaid'', ''chid''], rows = Map.empty, faults = [], metrics = []\<rparr>))
        ''u1'' ''c1'' = Some (PInt 3)
   \<and> fst (save_notification ''u1'' ''c1'' 2
          \<lparr>key_fields = [''uaid'', ''chid''],
           rows = [[PStr ''u1'', PStr ''c1''] \<mapsto>
                     [''uaid'' \<mapsto> PStr ''u1'', ''chid'' \<mapsto> PStr ''c1'', ''version'' \<mapsto> PInt 3]],
           faults = [], metrics = []\<rparr>) = Inr False"
proof -
  let ?S0 = "\<lparr>key_fields = [''uaid'', ''chid''], rows = Map.empty, faults = [], metrics = []\<rparr>"
  let ?S1 = "\<lparr>key_fields = [''uaid'', ''chid''],
           rows = [[PStr ''u1'', PStr ''c1''] \<mapsto>
                     [''uaid'' \<mapsto> PStr ''u1'', ''chid'' \<mapsto> PStr ''c1'', ''version'' \<mapsto> PInt 3]],
           faults = [], metrics = []\<rparr>"
  have kf0: "key_fields ?S0 = [''uaid'', ''chid'']" and kf1: "key_fields ?S1 = [''uaid'', ''chid'']"
    by simp_all
  have r0: "\<not> fst (request ?S0)" and r1: "\<not> fst (request ?S1)"
    by (simp_all add: request_def)
  have ev: "fst (save_all ''u1'' ''c1'' [1, 3, 2] ?S0) = [Inr True, Inr True, Inr False]"
    by (simp add: save_notification_eq request_def stored_version_def split: prod.splits)
  have ne: "succeeded [1, 3, 2] (fst (save_all ''u1'' ''c1'' [1, 3, 2] ?S0)) \<noteq> []"
    and mx: "Max (set (succeeded [1, 3, 2] (fst (save_all ''u1'' ''c1'' [1, 3, 2] ?S0)))) = 3"
    unfolding ev by (simp_all add: succeeded_def)
  have sv1: "stored_version ?S1 ''u1'' ''c1'' = Some (PInt 3)"
    by (simp add: stored_version_def)
  note t0 = save_notification_monotonic[OF kf0, of "''u1''" "''c1''" 1 "[1, 3, 2]"]
  note t1 = save_notification_monotonic[OF kf1, of "''u1''" "''c1''" 2 "[]"]
  have a: "fst (save_notification ''u1'' ''c1'' 1 ?S0) = Inr True"
    using t0 r0 by simp
  have b: "stored_version (snd (save_all ''u1'' ''c1'' [1, 3, 2] ?S0)) ''u1'' ''c1'' = Some (PInt 3)"
    using t0 ne mx by (metis prod.collapse)
  have c: "fst (save_notification ''u1'' ''c1'' 2 ?S1) = Inr False"
    using t1 r1 sv1 by simp
  show ?thesis using a b c by simp
qed

section \<open>Partition names follow the calendar\<close>

text \<open>
  C7. For every prefix and every date \<open>today\<close>, \<^verbatim>\<open>make_rotating_tablename\<close> is the
  prefix, the year and the month joined by underscores, the month written without
  padding (one digit below 10); with \<open>delta = 0\<close> year and month are today's, with
  \<open>delta = 1\<close> they are those of the next calendar month and with \<open>delta = -1\<close> those
  of the previous calendar month, whatever the day of the month (the neighbouring
  month has to lie within the years 1 to 9999 that a date can hold).
\<close>

theorem make_rotating_tablename_months:
  assumes "valid_date today"
  shows "make_rotating_tablename prefix today 0 =
           Inr (prefix @ ''_'' @ py_str (year today) @ ''_'' @ py_str (int (month today)))
       \<and> length (py_str (int (month today))) = (if month today < 10 then 1 else 2)
       \<and> (year today < 9999 \<or> month today < 12 \<longrightarrow>
            make_rotating_tablename prefix today 1 =
              Inr (prefix @ ''_'' @ py_str (if month today = 12 then year today + 1 else year today)
                     @ ''_'' @ py_str (int (if month today = 12 then 1 else month today + 1))))
       \<and> (1 < year today \<or> 1 < month today \<longrightarrow>
            make_rotating_tablename prefix today (- 1) =
              Inr (prefix @ ''_'' @ py_str (if month today = 1 then year today - 1 else year today)
                     @ ''_'' @ py_str (int (if month today = 1 then 12 else month today - 1))))"
proof -
  have m: "1 \<le> month today" "month today \<le> 12" and y: "1 \<le> year today" "year today \<le> 9999"
    using assms by (simp_all add: valid_date_def)
  have a: "make_rotating_tablename prefix today 0 =
           Inr (prefix @ ''_'' @ py_str (year today) @ ''_'' @ py_str (int (month today)))"
    by (simp add: make_rotating_tablename_def get_month_def)
  have b: "length (py_str (int (month today))) = (if month today < 10 then 1 else 2)"
  proof (cases "month today < 10")
    case True
    then show ?thesis by (simp add: py_str_def str_nat.simps[of "month today"])
  next
    case False
    then have "month today div 10 < 10" using m by simp
    then show ?thesis using False
      by (simp add: py_str_def str_nat.simps[of "month today"] str_nat.simps[of "month today div 10"])
  qed
  have c: "make_rotating_tablename prefix today 1 =
              Inr (prefix @ ''_'' @ py_str (if month today = 12 then year today + 1 else year today)
                     @ ''_'' @ py_str (int (if month today = 12 then 1 else month today + 1)))"
    if h: "year today < 9999 \<or> month today < 12"
  proof -
    have "year (first_of_next today) \<le> 9999" using h y by (auto simp: first_of_next_def)
    from until_new_month_forward[OF _ assms refl this, of 1]
    obtain x where x: "until_new_month 1 today today = Inr x"
      "year x = year (first_of_next today)" "month x = month (first_of_next today)" by auto
    have "get_month today 1 = Inr x"
      using x(1) by (simp add: get_month_def)
    then show ?thesis using x(2,3) m
      by (auto simp: make_rotating_tablename_def first_of_next_def)
  qed
  have d: "make_rotating_tablename prefix today (- 1) =
              Inr (prefix @ ''_'' @ py_str (if month today = 1 then year today - 1 else year today)
                     @ ''_'' @ py_str (int (if month today = 1 then 12 else month today - 1)))"
    if h: "1 < year today \<or> 1 < month today"
  proof -
    have "1 \<le> year (last_of_prev today)" using h y by (auto simp: last_of_prev_def)
    from until_new_month_backward[OF _ assms refl this, of "- 1"]
    obtain x where x: "until_new_month (- 1) today today = Inr x"
      "year x = year (last_of_prev today)" "month x = month (last_of_prev today)" by auto
    have "get_month today (- 1) = Inr x"
      using x(1) by (simp add: get_month_def)
    then show ?thesis using x(2,3) m
      by (auto simp: make_rotating_tablename_def last_of_prev_def)
  qed
  show ?thesis using a b c d by blast
qed

theorem make_rotating_tablename_months_witness:
  "valid_date \<lparr>year = 2016, month = 1, day = 31\<rparr>
   \<and> make_rotating_tablename ''message'' \<lparr>year = 2016, month = 1, day = 31\<rparr> 0 = Inr ''message_2016_1''
   \<and> make_rotating_tablename ''message'' \<lparr>year = 2016, month = 1, day = 31\<rparr> 1 = Inr ''message_2016_2''
   \<and> make_rotating_tablename ''message'' \<lparr>year = 2016, month = 1, day = 31\<rparr> (- 1) = Inr ''message_2015_12''"
proof -
  have v: "valid_date \<lparr>year = 2016, month = 1, day = 31\<rparr>"
    by (simp add: valid_date_def days_in_month_def)
  have s: "py_str 2016 = ''2016''" "py_str 2015 = ''2015''" "py_str 1 = ''1''" "py_str 2 = ''2''"
    "py_str 12 = ''12''"
    by (simp_all add: py_str_def str_nat.simps)
  show ?thesis
    using make_rotating_tablename_months[OF v, of "''message''"] v s by simp
qed

lemma conn_update_item_eq:
  assumes k: "key_of (key_fields s) db_key = Some k"
  shows "conn_update_item db_key expr conds rv s =
     (if fst (request s) then (Inl ProvisionedThroughputExceededException, snd (request s))
      else if list_all (\<lambda>c. holds c (current s k)) conds
      then (case apply_actions expr (case rows s k of None \<Rightarrow> db_key | Some it \<Rightarrow> it) of
              None \<Rightarrow> (Inl ValidationException, snd (request s))
            | Some new \<Rightarrow> (Inr (old_values rv expr (current s k)),
                            (snd (request s))\<lparr>rows := (rows s)(k \<mapsto> new)\<rparr>))
      else (Inl ConditionalCheckFailedException, snd (request s)))"
proof -
  obtain b s1 where r: "request s = (b, s1)" by (cases "request s")
  have "rows s1 = rows s" "current s1 k = current s k"
    using request_cases[OF r] by (simp_all add: current_def)
  then show ?thesis using r k by (simp add: conn_update_item_def split: option.splits)
qed

lemma conn_delete_item_eq:
  assumes k: "key_of (key_fields s) raw_key = Some k"
  shows "conn_delete_item raw_key conds s =
     (if fst (request s) then (Inl ProvisionedThroughputExceededException, snd (request s))
      else if list_all (\<lambda>c. holds c (current s k)) conds
      then (Inr (), (snd (request s))\<lparr>rows := (rows s)(k := None)\<rparr>)
      else (Inl ConditionalCheckFailedException, snd (request s)))"
proof -
  obtain b s1 where r: "request s = (b, s1)" by (cases "request s")
  have "rows s1 = rows s" "current s1 k = current s k"
    using request_cases[OF r] by (simp_all add: current_def)
  then show ?thesis using r k by (simp add: conn_delete_item_def)
qed

lemma table_get_item_eq:
  assumes k: "key_of (key_fields s) raw_key = Some k"
  shows "table_get_item raw_key s =
     (if fst (request s) then (Inl ProvisionedThroughputExceededException, snd (request s))
      else (case rows s k of
              None \<Rightarrow> (Inl ItemNotFound, snd (request s))
            | Some it \<Rightarrow> (Inr it, snd (request s))))"
proof -
  obtain b s1 where r: "request s = (b, s1)" by (cases "request s")
  have "rows s1 = rows s"
    using request_cases[OF r] by simp
  then show ?thesis using r k by (simp add: table_get_item_def split: option.splits)
qed

lemma val_less_irrefl [simp]: "\<not> val_less v v"
  by (cases v) simp_all

section \<open>Registering a user\<close>




lemma clear_node_eq:
  assumes kf: "key_fields self = [''uaid'']"
    and uaid: "item ''uaid'' = Some (PStr uaid)"
  shows "clear_node item self =
     (if fst (request self)
      then (Inl ProvisionedThroughputExceededException, item(''node_id'' := None),
            increment ''error.provisioned.clear_node'' (snd (request self)))
      else if current self [PStr uaid] ''node_id'' = Some (item_get item ''node_id'') \<and>
              current self [PStr uaid] ''connected_at'' = Some (item_get item ''connected_at'')
      then (Inr True, item(''node_id'' := None),
            (snd (request self))\<lparr>rows := (rows self)([PStr uaid] \<mapsto> [''uaid'' \<mapsto> PStr uaid])\<rparr>)
      else (Inr False, item(''node_id'' := None), snd (request self)))"
proof -
  have raw: "get_raw_keys (key_fields self) (item_del item ''node_id'') = [''uaid'' \<mapsto> PStr uaid]"
    using uaid by (simp add: get_raw_keys_def kf item_get_def item_del_def)
  have k: "key_of (key_fields self) [''uaid'' \<mapsto> PStr uaid] = Some [PStr uaid]"
    by (simp add: kf)
  have ca: "item_get (item_del item ''node_id'') ''connected_at'' = item_get item ''connected_at''"
    by (simp add: item_get_def item_del_def)
  show ?thesis
    unfolding clear_node_def clear_node_func_def Let_def raw ca conn_put_item_eq[OF k]
    by (simp add: track_provisioned_def item_del_def)
qed

section \<open>Clearing the node\<close>

text \<open>
  The condition of \<^verbatim>\<open>clear_node\<close>. On the router table, a served call on a snapshot
  with a uaid returns \<^verbatim>\<open>True\<close> exactly when the stored node id and \<^verbatim>\<open>connected_at\<close>
  equal the snapshot's. After \<^verbatim>\<open>True\<close> the user still has a record, the record has no
  node id, and no other user's record changed; after \<^verbatim>\<open>False\<close> the table is as it was.
\<close>
lemma clear_node_condition:
  assumes kf: "key_fields self = [''uaid'']"
    and served: "\<not> fst (request self)"
    and uaid: "item ''uaid'' = Some (PStr uaid)"
  shows "fst (clear_node item self) =
           Inr (current self [PStr uaid] ''node_id'' = Some (item_get item ''node_id'') \<and>
                current self [PStr uaid] ''connected_at'' = Some (item_get item ''connected_at''))
       \<and> (fst (clear_node item self) = Inr True \<longrightarrow>
            rows (snd (snd (clear_node item self))) [PStr uaid] \<noteq> None \<and>
            current (snd (snd (clear_node item self))) [PStr uaid] ''node_id'' = None \<and>
            (\<forall>k. k \<noteq> [PStr uaid] \<longrightarrow> rows (snd (snd (clear_node item self))) k = rows self k))
       \<and> (fst (clear_node item self) = Inr False \<longrightarrow>
            rows (snd (snd (clear_node item self))) = rows self)"
  unfolding clear_node_eq[where self = self and item = item and uaid = uaid, OF kf uaid]
  using served by (simp add: current_def)

lemma clear_node_condition_example:
  "fst (clear_node
          [''uaid'' \<mapsto> PStr ''u1'', ''node_id'' \<mapsto> PStr ''n1'', ''connected_at'' \<mapsto> PInt 5]
          \<lparr>key_fields = [''uaid''],
           rows = [[PStr ''u1''] \<mapsto>
                     [''uaid'' \<mapsto> PStr ''u1'', ''node_id'' \<mapsto> PStr ''n1'', ''connected_at'' \<mapsto> PInt 5]],
           faults = [], metrics = []\<rparr>) = Inr True
   \<and> fst (clear_node
          [''uaid'' \<mapsto> PStr ''u1'', ''node_id'' \<mapsto> PStr ''n1'', ''connected_at'' \<mapsto> PInt 5]
          \<lparr>key_fields = [''uaid''],
           rows = [[PStr ''u1''] \<mapsto>
                     [''uaid'' \<mapsto> PStr ''u1'', ''node_id'' \<mapsto> PStr ''n2'', ''connected_at'' \<mapsto> PInt 9]],
           faults = [], metrics = []\<rparr>) = Inr False"
proof -
  let ?I = "[''uaid'' \<mapsto> PStr ''u1'', ''node_id'' \<mapsto> PStr ''n1'', ''connected_at'' \<mapsto> PInt 5]"
  let ?S = "\<lparr>key_fields = [''uaid''], rows = [[PStr ''u1''] \<mapsto> ?I], faults = [], metrics = []\<rparr>"
  let ?T = "\<lparr>key_fields = [''uaid''],
           rows = [[PStr ''u1''] \<mapsto>
                     [''uaid'' \<mapsto> PStr ''u1'', ''node_id'' \<mapsto> PStr ''n2'', ''connected_at'' \<mapsto> PInt 9]],
           faults = [], metrics = []\<rparr>"
  have kfS: "key_fields ?S = [''uaid'']" and kfT: "key_fields ?T = [''uaid'']" by simp_all
  have sS: "\<not> fst (request ?S)" and sT: "\<not> fst (request ?T)" by (simp_all add: request_def)
  have u: "?I ''uaid'' = Some (PStr ''u1'')" by simp
  have a: "fst (clear_node ?I ?S) = Inr True"
    using clear_node_condition[where self = ?S and item = ?I and uaid = "''u1''", OF kfS sS u]
    by (simp add: current_def item_get_def)
  have b: "fst (clear_node ?I ?T) = Inr False"
    using clear_node_condition[where self = ?T and item = ?I and uaid = "''u1''", OF kfT sT u]
    by (simp add: current_def item_get_def)
  show ?thesis using a b by simp
qed

text \<open>
  C1, at a snapshot equal to the stored record. The record of user \<^verbatim>\<open>u1\<close> holds a node
  id, a \<^verbatim>\<open>connected_at\<close> and a router type, and the snapshot passed in is that record.
  The condition holds and \<^verbatim>\<open>clear_node\<close> returns \<^verbatim>\<open>True\<close>; what it has written is
  \<^verbatim>\<open>item.get_raw_keys()\<close>, the key alone: the record is left with its \<^verbatim>\<open>uaid\<close> only,
  \<^verbatim>\<open>connected_at\<close> and \<^verbatim>\<open>router_type\<close> are gone with the node id.
\<close>

theorem clear_node_wipes_other_fields:
  "fst (clear_node
          [''uaid'' \<mapsto> PStr ''u1'', ''node_id'' \<mapsto> PStr ''n1'', ''connected_at'' \<mapsto> PInt 5,
           ''router_type'' \<mapsto> PStr ''simplepush'']
          \<lparr>key_fields = [''uaid''],
           rows = [[PStr ''u1''] \<mapsto>
                     [''uaid'' \<mapsto> PStr ''u1'', ''node_id'' \<mapsto> PStr ''n1'', ''connected_at'' \<mapsto> PInt 5,
                      ''router_type'' \<mapsto> PStr ''simplepush'']],
           faults = [], metrics = []\<rparr>) = Inr True
   \<and> snd (snd (clear_node
          [''uaid'' \<mapsto> PStr ''u1'', ''node_id'' \<mapsto> PStr ''n1'', ''connected_at'' \<mapsto> PInt 5,
           ''router_type'' \<mapsto> PStr ''simplepush'']
          \<lparr>key_fields = [''uaid''],
           rows = [[PStr ''u1''] \<mapsto>
                     [''uaid'' \<mapsto> PStr ''u1'', ''node_id'' \<mapsto> PStr ''n1'', ''connected_at'' \<mapsto> PInt 5,
                      ''router_type'' \<mapsto> PStr ''simplepush'']],
           faults = [], metrics = []\<rparr>)) =
       \<lparr>key_fields = [''uaid''], rows = [[PStr ''u1''] \<mapsto> [''uaid'' \<mapsto> PStr ''u1'']],
        faults = [], metrics = []\<rparr>
   \<and> current
        (snd (snd (clear_node
          [''uaid'' \<mapsto> PStr ''u1'', ''node_id'' \<mapsto> PStr ''n1'', ''connected_at'' \<mapsto> PInt 5,
           ''router_type'' \<mapsto> PStr ''simplepush'']
          \<lparr>key_fields = [''uaid''],
           rows = [[PStr ''u1''] \<mapsto>
                     [''uaid'' \<mapsto> PStr ''u1'', ''node_id'' \<mapsto> PStr ''n1'', ''connected_at'' \<mapsto> PInt 5,
                      ''router_type'' \<mapsto> PStr ''simplepush'']],
           faults = [], metrics = []\<rparr>)))
        [PStr ''u1''] ''connected_at'' = None
   \<and> current
        (snd (snd (clear_node
          [''uaid'' \<mapsto> PStr ''u1'', ''node_id'' \<mapsto> PStr ''n1'', ''connected_at'' \<mapsto> PInt 5,
           ''router_type'' \<mapsto> PStr ''simplepush'']
          \<lparr>key_fields = [''uaid''],
           rows = [[PStr ''u1''] \<mapsto>
                     [''uaid'' \<mapsto> PStr ''u1'', ''node_id'' \<mapsto> PStr ''n1'', ''connected_at'' \<mapsto> PInt 5,
                      ''router_type'' \<mapsto> PStr ''simplepush'']],
           faults = [], metrics = []\<rparr>)))
        [PStr ''u1''] ''router_type'' = None"
  by (simp add: clear_node_def clear_node_func_def get_raw_keys_def item_get_def item_del_def
      conn_put_item_def request_def current_def track_provisioned_def)

section \<open>The caller's argument\<close>

text \<open>
  C9. After every call of \<^verbatim>\<open>register_user\<close>, whatever its outcome, the dict passed in
  is the one before the call without the key \<^verbatim>\<open>uaid\<close>; after every call of
  \<^verbatim>\<open>clear_node\<close>, whatever its outcome, the item passed in is the one before the call
  without the key \<^verbatim>\<open>node_id\<close>.
\<close>
theorem register_user_clear_node_mutate_argument:
  "fst (snd (register_user data self)) = data(''uaid'' := None)
   \<and> fst (snd (clear_node item self)) = item(''node_id'' := None)"
proof -
  have a: "fst (snd (register_user_func data self)) = data(''uaid'' := None)"
    by (auto simp: register_user_func_def dict_pop_def
        split: option.splits prod.splits sum.splits error.splits)
  have b: "fst (snd (clear_node_func item self)) = item(''node_id'' := None)"
    by (auto simp: clear_node_func_def item_del_def Let_def
        split: prod.splits sum.splits error.splits)
  show ?thesis using a b
    by (auto simp: register_user_def clear_node_def split: prod.splits)
qed


lemma table_delete_item_eq:
  assumes k: "key_of (key_fields s) raw_key = Some k"
  shows "table_delete_item raw_key expected s =
     (if fst (request s) then (Inl ProvisionedThroughputExceededException, snd (request s))
      else if list_all (\<lambda>c. holds c (current s k)) expected
      then (Inr True, (snd (request s))\<lparr>rows := (rows s)(k := None)\<rparr>)
      else (Inr False, snd (request s)))"
  by (simp add: table_delete_item_def conn_delete_item_eq[OF k])

section \<open>Refused requests and the metrics\<close>

text \<open>
  C3, at \<^verbatim>\<open>delete_messages\<close>. The store refuses the bulk write: the exception reaches
  the caller and no counter has been incremented, since \<^verbatim>\<open>delete_messages\<close> carries no
  decorator. On the same refusal its decorated sibling \<^verbatim>\<open>delete_message\<close> increments
  \<^verbatim>\<open>error.provisioned.delete_message\<close> before the exception reaches the caller.
\<close>
theorem delete_messages_throttled_no_metric:
  "delete_messages ''u1'' [PStr ''c1:m1'']
     \<lparr>key_fields = [''uaid'', ''chidmessageid''], rows = Map.empty, faults = [True], metrics = []\<rparr> =
   (Inl ProvisionedThroughputExceededException,
    \<lparr>key_fields = [''uaid'', ''chidmessageid''], rows = Map.empty, faults = [], metrics = []\<rparr>)
   \<and> delete_message ''u1'' ''c1'' ''m1'' PNone
     \<lparr>key_fields = [''uaid'', ''chidmessageid''], rows = Map.empty, faults = [True], metrics = []\<rparr> =
   (Inl ProvisionedThroughputExceededException,
    \<lparr>key_fields = [''uaid'', ''chidmessageid''], rows = Map.empty, faults = [],
     metrics = [''error.provisioned.delete_message'']\<rparr>)"
  by (simp add: delete_messages_def batch_write_def batch_exit_def flush_def
      delete_message_def table_delete_item_def conn_delete_item_def request_def
      track_provisioned_def increment_def)

section \<open>Deleting a notification\<close>

text \<open>
  C5, at a version that differs from the stored one. The stored version is 2 and the
  expected version is 1: the conditional delete fails, \<^verbatim>\<open>Table.delete_item\<close> answers
  \<^verbatim>\<open>False\<close>, \<^verbatim>\<open>delete_notification\<close> drops the answer and returns \<^verbatim>\<open>True\<close>; the
  record is still stored.
\<close>
theorem delete_notification_mismatch_returns_true:
  "delete_notification ''u1'' ''c1'' (PInt 1)
     \<lparr>key_fields = [''uaid'', ''chid''],
      rows = [[PStr ''u1'', PStr ''c1''] \<mapsto>
                [''uaid'' \<mapsto> PStr ''u1'', ''chid'' \<mapsto> PStr ''c1'', ''version'' \<mapsto> PInt 2]],
      faults = [], metrics = []\<rparr> =
   (Inr True,
     \<lparr>key_fields = [''uaid'', ''chid''],
      rows = [[PStr ''u1'', PStr ''c1''] \<mapsto>
                [''uaid'' \<mapsto> PStr ''u1'', ''chid'' \<mapsto> PStr ''c1'', ''version'' \<mapsto> PInt 2]],
      faults = [], metrics = []\<rparr>)"
  by (simp add: delete_notification_def table_delete_item_def conn_delete_item_def request_def
      current_def)

lemma delete_notification_throttled:
  "key_fields self = [''uaid'', ''chid''] \<Longrightarrow> fst (request self) \<Longrightarrow>
   delete_notification uaid chid version self =
     (Inr False, increment ''error.provisioned.delete_notification'' (snd (request self)))"
  by (simp add: delete_notification_def table_delete_item_eq)

text \<open>
  C8. A falsy guard is no guard: \<^verbatim>\<open>delete_notification\<close> with version 0 does what it
  does without a version, and \<^verbatim>\<open>delete_message\<close> with the empty string as updateid does
  what it does without an updateid; a served call of either removes the record
  whatever version or updateid is stored, and returns \<^verbatim>\<open>True\<close>.
\<close>
theorem falsy_guard_is_no_guard:
  "delete_notification uaid chid (PInt 0) self = delete_notification uaid chid PNone self
   \<and> delete_message uaid channel_id message_id (PStr []) self =
       delete_message uaid channel_id message_id PNone self
   \<and> (key_fields self = [''uaid'', ''chid''] \<longrightarrow> \<not> fst (request self) \<longrightarrow>
        delete_notification uaid chid (PInt 0) self =
          (Inr True, (snd (request self))\<lparr>rows := (rows self)([PStr uaid, PStr chid] := None)\<rparr>))
   \<and> (key_fields self = [''uaid'', ''chidmessageid''] \<longrightarrow> \<not> fst (request self) \<longrightarrow>
        delete_message uaid channel_id message_id (PStr []) self =
          (Inr True, (snd (request self))\<lparr>rows :=
             (rows self)([PStr uaid, PStr (channel_id @ '':'' @ message_id)] := None)\<rparr>))"
proof -
  have a: "delete_notification uaid chid (PInt 0) self = delete_notification uaid chid PNone self"
    by (simp add: delete_notification_def)
  have b: "delete_message uaid channel_id message_id (PStr []) self =
       delete_message uaid channel_id message_id PNone self"
    by (simp add: delete_message_def)
  have c: "delete_notification uaid chid (PInt 0) self =
          (Inr True, (snd (request self))\<lparr>rows := (rows self)([PStr uaid, PStr chid] := None)\<rparr>)"
    if "key_fields self = [''uaid'', ''chid'']" "\<not> fst (request self)"
    using that by (simp add: delete_notification_def table_delete_item_eq)
  have d: "delete_message uaid channel_id message_id (PStr []) self =
          (Inr True, (snd (request self))\<lparr>rows :=
             (rows self)([PStr uaid, PStr (channel_id @ '':'' @ message_id)] := None)\<rparr>)"
    if "key_fields self = [''uaid'', ''chidmessageid'']" "\<not> fst (request self)"
    using that by (simp add: delete_message_def table_delete_item_eq track_provisioned_def)
  show ?thesis using a b c d by blast
qed

theorem falsy_guard_is_no_guard_witness:
  "rows (snd (delete_notification ''u1'' ''c1'' (PInt 0)
     \<lparr>key_fields = [''uaid'', ''chid''],
      rows = [[PStr ''u1'', PStr ''c1''] \<mapsto>
                [''uaid'' \<mapsto> PStr ''u1'', ''chid'' \<mapsto> PStr ''c1'', ''version'' \<mapsto> PInt 7]],
      faults = [], metrics = []\<rparr>)) [PStr ''u1'', PStr ''c1''] = None
   \<and> rows (snd (delete_message ''u1'' ''c1'' ''m1'' (PStr [])
     \<lparr>key_fields = [''uaid'', ''chidmessageid''],
      rows = [[PStr ''u1'', PStr ''c1:m1''] \<mapsto>
                [''uaid'' \<mapsto> PStr ''u1'', ''chidmessageid'' \<mapsto> PStr ''c1:m1'',
                 ''updateid'' \<mapsto> PStr ''a1'']],
      faults = [], metrics = []\<rparr>)) [PStr ''u1'', PStr ''c1:m1''] = None"
proof -
  let ?S = "\<lparr>key_fields = [''uaid'', ''chid''],
      rows = [[PStr ''u1'', PStr ''c1''] \<mapsto>
                [''uaid'' \<mapsto> PStr ''u1'', ''chid'' \<mapsto> PStr ''c1'', ''version'' \<mapsto> PInt 7]],
      faults = [], metrics = []\<rparr>"
  let ?M = "\<lparr>key_fields = [''uaid'', ''chidmessageid''],
      rows = [[PStr ''u1'', PStr ''c1:m1''] \<mapsto>
                [''uaid'' \<mapsto> PStr ''u1'', ''chidmessageid'' \<mapsto> PStr ''c1:m1'',
                 ''updateid'' \<mapsto> PStr ''a1'']],
      faults = [], metrics = []\<rparr>"
  have sS: "\<not> fst (request ?S)" and sM: "\<not> fst (request ?M)" by (simp_all add: request_def)
  have a: "rows (snd (delete_notification ''u1'' ''c1'' (PInt 0) ?S)) [PStr ''u1'', PStr ''c1''] = None"
  proof -
    have "delete_notification ''u1'' ''c1'' (PInt 0) ?S =
          (Inr True, (snd (request ?S))\<lparr>rows := (rows ?S)([PStr ''u1'', PStr ''c1''] := None)\<rparr>)"
      using falsy_guard_is_no_guard[of "''u1''" "''c1''" ?S] sS by fastforce
    then show ?thesis by simp
  qed
  have b: "rows (snd (delete_message ''u1'' ''c1'' ''m1'' (PStr []) ?M)) [PStr ''u1'', PStr ''c1:m1''] = None"
  proof -
    have "delete_message ''u1'' ''c1'' ''m1'' (PStr []) ?M =
          (Inr True, (snd (request ?M))\<lparr>rows :=
             (rows ?M)([PStr ''u1'', PStr (''c1'' @ '':'' @ ''m1'')] := None)\<rparr>)"
      using falsy_guard_is_no_guard[of "''u1''" _ ?M "''c1''" "''m1''"] sM by fastforce
    then show ?thesis by simp
  qed
  show ?thesis using a b by simp
qed

section \<open>The channel registry\<close>

text \<open>
  C10. On the message table, a served \<^verbatim>\<open>all_channels\<close> returns \<^verbatim>\<open>(False, set())\<close> when
  the user has no registry record; when the record exists it returns \<^verbatim>\<open>True\<close> with the
  stored channels, and with the empty set when the record has no \<^verbatim>\<open>chids\<close> or an empty
  one. So the flag is \<^verbatim>\<open>False\<close> exactly when no registry record exists.
\<close>
theorem all_channels_found_is_existence:
  assumes kf: "key_fields self = [''uaid'', ''chidmessageid'']"
    and served: "\<not> fst (request self)"
  shows "(rows self [PStr uaid, PStr '' ''] = None \<longrightarrow>
            fst (all_channels uaid self) = Inr (False, PSet {}))
       \<and> (\<forall>it. rows self [PStr uaid, PStr '' ''] = Some it \<longrightarrow>
            fst (all_channels uaid self) =
              Inr (True, if truthy (item_get it ''chids'') then item_get it ''chids'' else PSet {}))
       \<and> (\<forall>it. rows self [PStr uaid, PStr '' ''] = Some it \<longrightarrow>
            it ''chids'' = None \<or> it ''chids'' = Some (PSet {}) \<longrightarrow>
            fst (all_channels uaid self) = Inr (True, PSet {}))
       \<and> ((\<exists>chids. fst (all_channels uaid self) = Inr (False, chids)) \<longleftrightarrow>
            rows self [PStr uaid, PStr '' ''] = None)"
proof -
  have k: "key_of (key_fields self) [''uaid'' \<mapsto> PStr uaid, ''chidmessageid'' \<mapsto> PStr '' '']
             = Some [PStr uaid, PStr '' '']"
    by (simp add: kf)
  have eq: "all_channels uaid self =
     (case rows self [PStr uaid, PStr '' ''] of
        None \<Rightarrow> (Inr (False, PSet {}), snd (request self))
      | Some it \<Rightarrow> (Inr (True, if truthy (item_get it ''chids'') then item_get it ''chids'' else PSet {}),
                    snd (request self)))"
    using served
    by (simp add: all_channels_def table_get_item_eq[OF k] track_provisioned_def split: option.splits)
  show ?thesis
    unfolding eq by (auto simp: item_get_def split: option.splits)
qed

theorem all_channels_found_is_existence_witness:
  "fst (all_channels ''u1''
     \<lparr>key_fields = [''uaid'', ''chidmessageid''], rows = Map.empty, faults = [], metrics = []\<rparr>)
     = Inr (False, PSet {})
   \<and> fst (all_channels ''u1''
     \<lparr>key_fields = [''uaid'', ''chidmessageid''],
      rows = [[PStr ''u1'', PStr '' ''] \<mapsto> [''uaid'' \<mapsto> PStr ''u1'', ''chidmessageid'' \<mapsto> PStr '' '']],
      faults = [], metrics = []\<rparr>)
     = Inr (True, PSet {})"
proof -
  let ?E = "\<lparr>key_fields = [''uaid'', ''chidmessageid''], rows = Map.empty, faults = [], metrics = []\<rparr>"
  let ?R = "\<lparr>key_fields = [''uaid'', ''chidmessageid''],
      rows = [[PStr ''u1'', PStr '' ''] \<mapsto> [''uaid'' \<mapsto> PStr ''u1'', ''chidmessageid'' \<mapsto> PStr '' '']],
      faults = [], metrics = []\<rparr>"
  have kE: "key_fields ?E = [''uaid'', ''chidmessageid'']" and kR: "key_fields ?R = [''uaid'', ''chidmessageid'']"
    by simp_all
  have sE: "\<not> fst (request ?E)" and sR: "\<not> fst (request ?R)" by (simp_all add: request_def)
  have a: "fst (all_channels ''u1'' ?E) = Inr (False, PSet {})"
    using all_channels_found_is_existence[OF kE sE, of "''u1''"] by simp
  have b: "fst (all_channels ''u1'' ?R) = Inr (True, PSet {})"
    using all_channels_found_is_existence[OF kR sR, of "''u1''"] by (simp add: item_get_def)
  show ?thesis using a b by simp
qed

lemma update_message_eq:
  assumes kf: "key_fields self = [''uaid'', ''chidmessageid'']"
  shows "update_message uuid4_hex time_time uaid channel_id message_id ttl data headers timestamp self =
     (if fst (request self)
      then (Inl ProvisionedThroughputExceededException,
            increment ''error.provisioned.update_message'' (snd (request self)))
      else case rows self [PStr uaid, PStr (channel_id @ '':'' @ message_id)] of
             None \<Rightarrow> (Inr False, snd (request self))
           | Some it \<Rightarrow>
               if it ''updateid'' = None then (Inr False, snd (request self))
               else (Inr True, (snd (request self))\<lparr>rows :=
                      (rows self)([PStr uaid, PStr (channel_id @ '':'' @ message_id)] \<mapsto>
                        (if truthy data
                         then it ++ [''ttl'' \<mapsto> ttl,
                                ''timestamp'' \<mapsto> (if truthy timestamp then timestamp else PInt time_time),
                                ''updateid'' \<mapsto> PStr uuid4_hex,
                                ''headers'' \<mapsto> headers, ''data'' \<mapsto> data]
                         else (\<lambda>a. if a \<in> set [''data'', ''headers''] then None
                                   else (it ++ [''ttl'' \<mapsto> ttl,
                                ''timestamp'' \<mapsto> (if truthy timestamp then timestamp else PInt time_time),
                                ''updateid'' \<mapsto> PStr uuid4_hex]) a)))\<rparr>))"
proof -
  have k: "key_of (key_fields self)
             [''uaid'' \<mapsto> PStr uaid, ''chidmessageid'' \<mapsto> PStr (channel_id @ '':'' @ message_id)]
           = Some [PStr uaid, PStr (channel_id @ '':'' @ message_id)]"
    by (simp add: kf)
  show ?thesis
    unfolding update_message_def Let_def conn_update_item_eq[OF k]
    by (simp add: track_provisioned_def current_def split: option.splits cong: if_cong)
qed

section \<open>Updating a message\<close>

text \<open>
  C6, as amended. On the message table, a served \<^verbatim>\<open>update_message\<close> on a message that
  is not stored returns \<^verbatim>\<open>False\<close> and the table is as it was. On a stored message
  record (one with an \<^verbatim>\<open>updateid\<close>) it returns \<^verbatim>\<open>True\<close> and the record then holds the
  newly generated \<^verbatim>\<open>updateid\<close>, the new \<^verbatim>\<open>ttl\<close> and the timestamp (the one passed when
  it is truthy, the current time otherwise); when \<^verbatim>\<open>data\<close> is truthy the record holds
  \<^verbatim>\<open>data\<close> and \<^verbatim>\<open>headers\<close> as passed; when \<^verbatim>\<open>data\<close> is \<^verbatim>\<open>None\<close> or falsy (the empty
  string) the record has neither \<^verbatim>\<open>data\<close> nor \<^verbatim>\<open>headers\<close>; its other attributes are as
  before.
\<close>
theorem update_message_effect:
  assumes kf: "key_fields self = [''uaid'', ''chidmessageid'']"
    and served: "\<not> fst (request self)"
  shows "(rows self [PStr uaid, PStr (channel_id @ '':'' @ message_id)] = None \<longrightarrow>
            fst (update_message uuid4_hex time_time uaid channel_id message_id ttl data headers
                   timestamp self) = Inr False \<and>
            rows (snd (update_message uuid4_hex time_time uaid channel_id message_id ttl data headers
                   timestamp self)) = rows self)
       \<and> (\<forall>it. rows self [PStr uaid, PStr (channel_id @ '':'' @ message_id)] = Some it \<longrightarrow>
              it ''updateid'' \<noteq> None \<longrightarrow>
            fst (update_message uuid4_hex time_time uaid channel_id message_id ttl data headers
                   timestamp self) = Inr True \<and>
            (\<exists>new. rows (snd (update_message uuid4_hex time_time uaid channel_id message_id ttl data
                              headers timestamp self))
                     [PStr uaid, PStr (channel_id @ '':'' @ message_id)] = Some new \<and>
               new ''updateid'' = Some (PStr uuid4_hex) \<and>
               new ''ttl'' = Some ttl \<and>
               new ''timestamp'' = Some (if truthy timestamp then timestamp else PInt time_time) \<and>
               (truthy data \<longrightarrow> new ''data'' = Some data \<and> new ''headers'' = Some headers) \<and>
               (\<not> truthy data \<longrightarrow> new ''data'' = None \<and> new ''headers'' = None) \<and>
               (\<forall>a. a \<notin> set [''updateid'', ''ttl'', ''timestamp'', ''data'', ''headers''] \<longrightarrow>
                    new a = it a)))"
  unfolding update_message_eq[OF kf] using served
  by (auto simp: map_add_def)

theorem update_message_effect_witness:
  "snd (store_message ''a1'' 50 ''u1'' ''c1'' ''m1'' (PInt 60) (PStr ''old'') (PStr ''h1'') PNone
     \<lparr>key_fields = [''uaid'', ''chidmessageid''], rows = Map.empty, faults = [], metrics = []\<rparr>) =
     \<lparr>key_fields = [''uaid'', ''chidmessageid''],
      rows = [[PStr ''u1'', PStr ''c1:m1''] \<mapsto>
                [''updateid'' \<mapsto> PStr ''a1'', ''timestamp'' \<mapsto> PInt 50, ''ttl'' \<mapsto> PInt 60,
                 ''headers'' \<mapsto> PStr ''h1'', ''data'' \<mapsto> PStr ''old'',
                 ''chidmessageid'' \<mapsto> PStr ''c1:m1'', ''uaid'' \<mapsto> PStr ''u1'']],
      faults = [], metrics = []\<rparr>
   \<and> fst (update_message ''b2'' 100 ''u1'' ''c1'' ''m1'' (PInt 30) (PStr ''new'') (PStr ''h2'') PNone
     \<lparr>key_fields = [''uaid'', ''chidmessageid''],
      rows = [[PStr ''u1'', PStr ''c1:m1''] \<mapsto>
                [''updateid'' \<mapsto> PStr ''a1'', ''timestamp'' \<mapsto> PInt 50, ''ttl'' \<mapsto> PInt 60,
                 ''headers'' \<mapsto> PStr ''h1'', ''data'' \<mapsto> PStr ''old'',
                 ''chidmessageid'' \<mapsto> PStr ''c1:m1'', ''uaid'' \<mapsto> PStr ''u1'']],
      faults = [], metrics = []\<rparr>) = Inr True
   \<and> current (snd (update_message ''b2'' 100 ''u1'' ''c1'' ''m1'' (PInt 30) (PStr ''new'') (PStr ''h2'') PNone
     \<lparr>key_fields = [''uaid'', ''chidmessageid''],
      rows = [[PStr ''u1'', PStr ''c1:m1''] \<mapsto>
                [''updateid'' \<mapsto> PStr ''a1'', ''timestamp'' \<mapsto> PInt 50, ''ttl'' \<mapsto> PInt 60,
                 ''headers'' \<mapsto> PStr ''h1'', ''data'' \<mapsto> PStr ''old'',
                 ''chidmessageid'' \<mapsto> PStr ''c1:m1'', ''uaid'' \<mapsto> PStr ''u1'']],
      faults = [], metrics = []\<rparr>)) [PStr ''u1'', PStr ''c1:m1''] ''updateid'' = Some (PStr ''b2'')
   \<and> fst (update_message ''b2'' 100 ''u1'' ''c1'' ''m1'' (PInt 30) (PStr ''new'') (PStr ''h2'') PNone
     \<lparr>key_fields = [''uaid'', ''chidmessageid''], rows = Map.empty, faults = [], metrics = []\<rparr>)
     = Inr False"
proof -
  let ?I = "[''updateid'' \<mapsto> PStr ''a1'', ''timestamp'' \<mapsto> PInt 50, ''ttl'' \<mapsto> PInt 60,
                 ''headers'' \<mapsto> PStr ''h1'', ''data'' \<mapsto> PStr ''old'',
                 ''chidmessageid'' \<mapsto> PStr ''c1:m1'', ''uaid'' \<mapsto> PStr ''u1'']"
  let ?S = "\<lparr>key_fields = [''uaid'', ''chidmessageid''],
      rows = [[PStr ''u1'', PStr ''c1:m1''] \<mapsto> ?I], faults = [], metrics = []\<rparr>"
  let ?E = "\<lparr>key_fields = [''uaid'', ''chidmessageid''], rows = Map.empty, faults = [], metrics = []\<rparr>"
  let ?U = "update_message ''b2'' 100 ''u1'' ''c1'' ''m1'' (PInt 30) (PStr ''new'') (PStr ''h2'') PNone"
  have st: "snd (store_message ''a1'' 50 ''u1'' ''c1'' ''m1'' (PInt 60) (PStr ''old'') (PStr ''h1'') PNone ?E) = ?S"
    by (simp add: store_message_def table_put_item_def conn_put_item_def request_def current_def
        is_storable_def track_provisioned_def)
  have kS: "key_fields ?S = [''uaid'', ''chidmessageid'']" and kE: "key_fields ?E = [''uaid'', ''chidmessageid'']"
    by simp_all
  have sS: "\<not> fst (request ?S)" and sE: "\<not> fst (request ?E)" by (simp_all add: request_def)
  have rS: "rows ?S [PStr ''u1'', PStr (''c1'' @ '':'' @ ''m1'')] = Some ?I" by simp
  have uS: "?I ''updateid'' \<noteq> None" by simp
  note tS = update_message_effect[OF kS sS, of "''u1''" "''c1''" "''m1''" "''b2''" 100 "PInt 30"
        "PStr ''new''" "PStr ''h2''" PNone]
  have a: "fst (?U ?S) = Inr True"
    using tS rS uS by blast
  obtain new where new: "rows (snd (?U ?S)) [PStr ''u1'', PStr (''c1'' @ '':'' @ ''m1'')] = Some new"
      "new ''updateid'' = Some (PStr ''b2'')"
    using tS rS uS by blast
  then have c: "current (snd (?U ?S)) [PStr ''u1'', PStr ''c1:m1''] ''updateid'' = Some (PStr ''b2'')"
    by (simp add: current_def)
  have b: "fst (?U ?E) = Inr False"
    using update_message_effect[OF kE sE, of "''u1''" "''c1''" "''m1''" "''b2''" 100 "PInt 30"
        "PStr ''new''" "PStr ''h2''" PNone]
    by simp
  show ?thesis using st a b c by simp
qed

text \<open>The claim as stated fails for a payload that is supplied but empty: the stored
  \<^verbatim>\<open>data\<close> and \<^verbatim>\<open>headers\<close> are removed, not written.\<close>

theorem update_message_empty_data_counterexample:
  "fst (update_message ''b2'' 100 ''u1'' ''c1'' ''m1'' (PInt 30) (PStr []) (PStr ''h2'') PNone
     \<lparr>key_fields = [''uaid'', ''chidmessageid''],
      rows = [[PStr ''u1'', PStr ''c1:m1''] \<mapsto>
                [''uaid'' \<mapsto> PStr ''u1'', ''chidmessageid'' \<mapsto> PStr ''c1:m1'',
                 ''data'' \<mapsto> PStr ''old'', ''headers'' \<mapsto> PStr ''h1'',
                 ''ttl'' \<mapsto> PInt 60, ''timestamp'' \<mapsto> PInt 1, ''updateid'' \<mapsto> PStr ''a1'']],
      faults = [], metrics = []\<rparr>) = Inr True
   \<and> current (snd (update_message ''b2'' 100 ''u1'' ''c1'' ''m1'' (PInt 30) (PStr []) (PStr ''h2'') PNone
     \<lparr>key_fields = [''uaid'', ''chidmessageid''],
      rows = [[PStr ''u1'', PStr ''c1:m1''] \<mapsto>
                [''uaid'' \<mapsto> PStr ''u1'', ''chidmessageid'' \<mapsto> PStr ''c1:m1'',
                 ''data'' \<mapsto> PStr ''old'', ''headers'' \<mapsto> PStr ''h1'',
                 ''ttl'' \<mapsto> PInt 60, ''timestamp'' \<mapsto> PInt 1, ''updateid'' \<mapsto> PStr ''a1'']],
      faults = [], metrics = []\<rparr>)) [PStr ''u1'', PStr ''c1:m1''] ''data'' = None
   \<and> current (snd (update_message ''b2'' 100 ''u1'' ''c1'' ''m1'' (PInt 30) (PStr []) (PStr ''h2'') PNone
     \<lparr>key_fields = [''uaid'', ''chidmessageid''],
      rows = [[PStr ''u1'', PStr ''c1:m1''] \<mapsto>
                [''uaid'' \<mapsto> PStr ''u1'', ''chidmessageid'' \<mapsto> PStr ''c1:m1'',
                 ''data'' \<mapsto> PStr ''old'', ''headers'' \<mapsto> PStr ''h1'',
                 ''ttl'' \<mapsto> PInt 60, ''timestamp'' \<mapsto> PInt 1, ''updateid'' \<mapsto> PStr ''a1'']],
      faults = [], metrics = []\<rparr>)) [PStr ''u1'', PStr ''c1:m1''] ''headers'' = None"
  by (simp add: update_message_eq request_def current_def)

end
